theory Spec2Isabelle
  imports Main "HOL-Library.Sublist" "HOL-Library.Word"
begin

section \<open>JavaScript values\<close>

text \<open>
  The responses of the server, the records of the configuration store and the results of
  the crypto helpers are untyped (\<^verbatim>\<open>any\<close>) in \<^verbatim>\<open>api.ts\<close>. They are modelled as JSON
  values; \<open>None\<close> stands for \<^verbatim>\<open>undefined\<close>. Numbers are integers, strings are lists of
  8-bit characters.
\<close>

datatype json =
    JNull
  | JBool bool
  | JNum int
  | JStr string
  | JArr "json list"
  | JObj "(string \<times> json) list"

type_synonym jsval = "json option"

type_synonym bytes = "8 word list"

datatype error =
    ErrorOf jsval         \<comment> \<open>\<^verbatim>\<open>new Error(v)\<close> for a value \<open>v\<close> read from a response\<close>
  | ErrorMsg string       \<comment> \<open>\<^verbatim>\<open>new Error("...")\<close> with a message built by the client\<close>
  | TypeError             \<comment> \<open>a property read on \<^verbatim>\<open>null\<close>/\<^verbatim>\<open>undefined\<close>, a call of a non-function\<close>
  | SyntaxError           \<comment> \<open>\<^verbatim>\<open>JSON.parse\<close> on a malformed body\<close>
  | Value jsval           \<comment> \<open>a promise rejected with a plain value, \<^verbatim>\<open>reject(obj.message)\<close>\<close>
  | Failure string        \<comment> \<open>a rejection raised by a collaborator (store, crypto, socket)\<close>

datatype 'a outcome = Resolved 'a | Rejected error

fun truthy :: "jsval \<Rightarrow> bool" where
  "truthy None = False"
| "truthy (Some JNull) = False"
| "truthy (Some (JBool b)) = b"
| "truthy (Some (JNum n)) = (n \<noteq> 0)"
| "truthy (Some (JStr s)) = (s \<noteq> [])"
| "truthy (Some (JArr xs)) = True"
| "truthy (Some (JObj kvs)) = True"

fun typeof :: "jsval \<Rightarrow> string" where
  "typeof None = ''undefined''"
| "typeof (Some JNull) = ''object''"
| "typeof (Some (JBool b)) = ''boolean''"
| "typeof (Some (JNum n)) = ''number''"
| "typeof (Some (JStr s)) = ''string''"
| "typeof (Some (JArr xs)) = ''object''"
| "typeof (Some (JObj kvs)) = ''object''"

text \<open>
  \<open>field v k\<close> is \<^verbatim>\<open>v.k\<close> for the keys the client reads (\<^verbatim>\<open>status\<close>, \<^verbatim>\<open>code\<close>,
  \<^verbatim>\<open>message\<close>, \<^verbatim>\<open>data\<close>, \<^verbatim>\<open>existsUUID\<close>, \<^verbatim>\<open>uuid\<close>, ...): a property of an object, \<^verbatim>\<open>undefined\<close>
  on any other value, and a \<^verbatim>\<open>TypeError\<close> on \<^verbatim>\<open>null\<close> and \<^verbatim>\<open>undefined\<close>.
\<close>

fun field :: "jsval \<Rightarrow> string \<Rightarrow> error + jsval" where
  "field None k = Inl TypeError"
| "field (Some JNull) k = Inl TypeError"
| "field (Some (JObj kvs)) k = Inr (map_of kvs k)"
| "field (Some v) k = Inr None"

text \<open>An object literal: a property whose value is \<^verbatim>\<open>undefined\<close> is left out, as
  \<^verbatim>\<open>JSON.stringify\<close> leaves it out.\<close>

fun literal :: "(string \<times> jsval) list \<Rightarrow> json" where
  "literal kvs = JObj (concat (map (\<lambda>(k, v). case v of None \<Rightarrow> [] | Some j \<Rightarrow> [(k, j)]) kvs))"

subsection \<open>Strings\<close>

definition lowerChar :: "char \<Rightarrow> char" where
  "lowerChar c = (case map_of (zip ''ABCDEFGHIJKLMNOPQRSTUVWXYZ'' ''abcdefghijklmnopqrstuvwxyz'') c of
                    Some l \<Rightarrow> l | None \<Rightarrow> c)"

definition upperChar :: "char \<Rightarrow> char" where
  "upperChar c = (case map_of (zip ''abcdefghijklmnopqrstuvwxyz'' ''ABCDEFGHIJKLMNOPQRSTUVWXYZ'') c of
                    Some u \<Rightarrow> u | None \<Rightarrow> c)"

definition toLowerCase :: "string \<Rightarrow> string" where
  "toLowerCase s = map lowerChar s"

definition toUpperCase :: "string \<Rightarrow> string" where
  "toUpperCase s = map upperChar s"

text \<open>\<^verbatim>\<open>s.indexOf(w)\<close>: the first position at which \<open>w\<close> starts in \<open>s\<close>, or \<open>-1\<close>.\<close>

fun indexOfFrom :: "int \<Rightarrow> string \<Rightarrow> string \<Rightarrow> int" where
  "indexOfFrom i [] w = (if w = [] then i else -1)"
| "indexOfFrom i (c # s) w = (if prefix w (c # s) then i else indexOfFrom (i + 1) s w)"

definition indexOf :: "string \<Rightarrow> string \<Rightarrow> int" where
  "indexOf s w = indexOfFrom 0 s w"

text \<open>\<^verbatim>\<open>[...].includes(v)\<close> on an array of string literals.\<close>

definition arrayIncludes :: "string list \<Rightarrow> jsval \<Rightarrow> bool" where
  "arrayIncludes xs v = (case v of Some (JStr s) \<Rightarrow> s \<in> set xs | _ \<Rightarrow> False)"

definition digitChar :: "nat \<Rightarrow> char" where
  "digitChar n = ''0123456789'' ! n"

fun decimal :: "nat \<Rightarrow> string" where
  "decimal n = (if n < 10 then [digitChar n] else decimal (n div 10) @ [digitChar (n mod 10)])"

declare decimal.simps [simp del]

section \<open>What lies outside \<^verbatim>\<open>api.ts\<close>\<close>

text \<open>
  \<^verbatim>\<open>constants.json\<close> and \<^verbatim>\<open>package.json\<close> are not among the sources; the values that
  \<^verbatim>\<open>api.ts\<close> reads from them are parameters.
\<close>

record constants =
  maxRetryAPIRequest :: nat
  retryAPIRequestTimeout :: nat
  maxRetryUpload :: nat
  retryUploadTimeout :: nat
  maxRetryDownload :: nat
  retryDownloadTimeout :: nat
  apiServers :: "string list"
  uploadServers :: "string list"
  downloadServers :: "string list"
  version :: string
  buildNumber :: string
  platform :: string

record api_call =
  ac_method :: string
  ac_endpoint :: string
  ac_data :: jsval
  ac_apiKey :: jsval
  ac_includeRaw :: bool

text \<open>
  The helpers imported from \<^verbatim>\<open>../crypto\<close>, \<^verbatim>\<open>../db\<close> and \<^verbatim>\<open>striptags\<close>, and the built-ins
  \<^verbatim>\<open>JSON.stringify\<close>, \<^verbatim>\<open>JSON.parse\<close>, \<^verbatim>\<open>TextEncoder.encode\<close>, \<^verbatim>\<open>encodeURIComponent\<close>,
  \<^verbatim>\<open>URLSearchParams\<close> and the conversion of a value to a string (\<open>String_of\<close>), are parameters
  as well. A helper that returns a promise yields
  \<open>Inl e\<close> when the promise rejects (or the call throws). The two propagation entry points
  and \<^verbatim>\<open>apiRequest\<close> appear here too, for the operations that only await them: \<open>None\<close> is a
  promise that never settles.
\<close>

record world =
  hashFn :: "string \<Rightarrow> string"
  bufferToHash :: "bytes \<Rightarrow> error + string"
  encode :: "string \<Rightarrow> bytes"
  JSON_stringify :: "json \<Rightarrow> string"
  JSON_parse :: "string \<Rightarrow> json option"
  String_of :: "jsval \<Rightarrow> string"
  encodeURIComponent :: "string \<Rightarrow> string"
  urlParamsGet :: "string \<Rightarrow> string \<Rightarrow> string option"
  parseURLParamsSearch :: "string \<Rightarrow> json"
  nodeBufferToArrayBuffer :: "bytes \<Rightarrow> error + bytes"
  striptags :: "jsval \<Rightarrow> error + string"
  encryptMetadata :: "string \<Rightarrow> jsval \<Rightarrow> error + string"
  decryptFileMetadata :: "string \<Rightarrow> jsval \<Rightarrow> error + jsval"
  decryptFolderName :: "string \<Rightarrow> jsval \<Rightarrow> error + jsval"
  db_get :: "string \<Rightarrow> error + jsval"
  apiRequest_settles :: "api_call \<Rightarrow> json outcome option"
  parentShared_settles :: "string \<Rightarrow> string \<Rightarrow> json \<Rightarrow> unit outcome option"
  sharedForRename_settles :: "string \<Rightarrow> jsval \<Rightarrow> json \<Rightarrow> unit outcome option"

section \<open>Requests and effects\<close>

datatype body = NoBody | Text string | Bytes bytes

record request =
  rq_method :: string
  rq_hostname :: string
  rq_path :: string
  rq_headers :: "(string \<times> string) list"
  rq_body :: body

datatype effect =
    HttpRequest request                      \<comment> \<open>\<^verbatim>\<open>https.request(...)\<close> written and ended\<close>
  | SetTimeout nat                           \<comment> \<open>\<^verbatim>\<open>setTimeout(f, ms)\<close>\<close>
  | DbSet string json                        \<comment> \<open>\<^verbatim>\<open>db.set(key, value)\<close>\<close>
  | LogError
  | Logout                                   \<comment> \<open>\<^verbatim>\<open>logout()\<close> of the settings window\<close>
  | SetRate bool int                         \<comment> \<open>\<^verbatim>\<open>throttleGroupUpload.setRate\<close> (\<open>True\<close>) or download\<close>
  | ThrottleDestroy
  | RequestDestroy
  | SendToAllPorts string string nat string  \<comment> \<open>type, uuid, bytes, from\<close>
  | ApiRequest api_call                      \<comment> \<open>a call of \<^verbatim>\<open>apiRequest\<close>\<close>
  | CheckIfItemParentIsShared string string json
  | CheckIfItemIsSharedForRename string jsval json
  | SemaphoreAcquire
  | SemaphoreRelease

definition userAgent :: "constants \<Rightarrow> string" where
  "userAgent C = ''filen-desktop/'' @ version C @ ''-'' @ buildNumber C @ ''-'' @ platform C"

fun isHttpRequest :: "effect \<Rightarrow> bool" where
  "isHttpRequest (HttpRequest r) = True"
| "isHttpRequest e = False"

fun requestsOf :: "effect list \<Rightarrow> request list" where
  "requestsOf [] = []"
| "requestsOf (HttpRequest r # es) = r # requestsOf es"
| "requestsOf (e # es) = requestsOf es"

section \<open>Asynchronous functions\<close>

text \<open>
  An \<^verbatim>\<open>async\<close> function is a function of the system state (the effects so far and the
  counter of \<^verbatim>\<open>createFolderSemaphore\<close>) that returns how its promise settles, or \<open>None\<close>
  when it never does, and the state it leaves.
\<close>

record sys =
  effects :: "effect list"
  permits :: nat

type_synonym 'a task = "sys \<Rightarrow> 'a outcome option \<times> sys"

definition return :: "'a \<Rightarrow> 'a task" where
  "return x = (\<lambda>s. (Some (Resolved x), s))"

definition throw :: "error \<Rightarrow> 'a task" where
  "throw e = (\<lambda>s. (Some (Rejected e), s))"

definition await :: "'a task \<Rightarrow> ('a \<Rightarrow> 'b task) \<Rightarrow> 'b task" where
  "await m f = (\<lambda>s. case m s of
       (Some (Resolved x), s') \<Rightarrow> f x s'
     | (Some (Rejected e), s') \<Rightarrow> (Some (Rejected e), s')
     | (None, s') \<Rightarrow> (None, s'))"

definition tryCatch :: "'a task \<Rightarrow> (error \<Rightarrow> 'a task) \<Rightarrow> 'a task" where
  "tryCatch m h = (\<lambda>s. case m s of
       (Some (Rejected e), s') \<Rightarrow> h e s'
     | r \<Rightarrow> r)"

definition perform :: "effect \<Rightarrow> unit task" where
  "perform e = (\<lambda>s. (Some (Resolved ()), s\<lparr>effects := effects s @ [e]\<rparr>))"

definition lift :: "error + 'a \<Rightarrow> 'a task" where
  "lift r = (case r of Inl e \<Rightarrow> throw e | Inr x \<Rightarrow> return x)"

definition settles :: "'a outcome option \<Rightarrow> 'a task" where
  "settles r = (\<lambda>s. (r, s))"

definition apiRequest_call :: "world \<Rightarrow> api_call \<Rightarrow> json task" where
  "apiRequest_call W c = await (perform (ApiRequest c)) (\<lambda>_. settles (apiRequest_settles W c))"

definition checkIfItemParentIsShared_call :: "world \<Rightarrow> string \<Rightarrow> string \<Rightarrow> json \<Rightarrow> unit task" where
  "checkIfItemParentIsShared_call W type parent metaData =
     await (perform (CheckIfItemParentIsShared type parent metaData))
       (\<lambda>_. settles (parentShared_settles W type parent metaData))"

definition checkIfItemIsSharedForRename_call :: "world \<Rightarrow> string \<Rightarrow> jsval \<Rightarrow> json \<Rightarrow> unit task" where
  "checkIfItemIsSharedForRename_call W type uuid metaData =
     await (perform (CheckIfItemIsSharedForRename type uuid metaData))
       (\<lambda>_. settles (sharedForRename_settles W type uuid metaData))"

text \<open>Modelled from the spec: the \<^verbatim>\<open>Semaphore\<close> class of \<^verbatim>\<open>../helpers\<close> is not among the
  sources. The spec calls \<^verbatim>\<open>createFolderSemaphore\<close> a 1-permit gate: \<^verbatim>\<open>acquire\<close> takes a free
  permit or waits for one, \<^verbatim>\<open>release\<close> gives one back.\<close>

definition semaphore_acquire :: "unit task" where
  "semaphore_acquire = (\<lambda>s.
     if permits s = 0 then (None, s)
     else (Some (Resolved ()), s\<lparr>effects := effects s @ [SemaphoreAcquire], permits := permits s - 1\<rparr>))"

definition semaphore_release :: "unit task" where
  "semaphore_release = (\<lambda>s.
     (Some (Resolved ()), s\<lparr>effects := effects s @ [SemaphoreRelease], permits := permits s + 1\<rparr>))"

text \<open>\<^verbatim>\<open>masterKeys[masterKeys.length - 1]\<close>.\<close>

fun lastMasterKey :: "jsval \<Rightarrow> error + jsval" where
  "lastMasterKey None = Inl TypeError"
| "lastMasterKey (Some JNull) = Inl TypeError"
| "lastMasterKey (Some (JArr ks)) = Inr (if ks = [] then None else Some (last ks))"
| "lastMasterKey (Some (JStr s)) = Inr (if s = [] then None else Some (JStr [last s]))"
| "lastMasterKey (Some v) = Inr None"

section \<open>Operations on items\<close>

abbreviation str :: "string \<Rightarrow> jsval" where
  "str s \<equiv> Some (JStr s)"

definition post :: "string \<Rightarrow> json \<Rightarrow> api_call" where
  "post endpoint d = \<lparr>ac_method = ''POST'', ac_endpoint = endpoint, ac_data = Some d,
     ac_apiKey = None, ac_includeRaw = False\<rparr>"

definition createFolder :: "world \<Rightarrow> string \<Rightarrow> string \<Rightarrow> string \<Rightarrow> jsval task" where
  "createFolder W uuid name parent =
     await semaphore_acquire (\<lambda>_.
     tryCatch
       (let nameHashed = hashFn W (toLowerCase name) in
        await (lift (db_get W ''masterKeys'')) (\<lambda>masterKeys.
        await (lift (lastMasterKey masterKeys)) (\<lambda>key.
        await (lift (encryptMetadata W (JSON_stringify W (literal [(''name'', str name)])) key)) (\<lambda>encrypted.
        await (apiRequest_call W (post ''/v3/dir/create''
                 (literal [(''uuid'', str uuid), (''name'', str encrypted),
                           (''nameHashed'', str nameHashed), (''parent'', str parent)]))) (\<lambda>response.
        await (lift (field (Some response) ''status'')) (\<lambda>status.
          if \<not> truthy status then
            await (lift (field (Some response) ''data'')) (\<lambda>data.
            await (lift (if typeof data \<noteq> ''undefined'' then field data ''existsUUID'' else Inr None)) (\<lambda>existsUUID.
              if typeof data \<noteq> ''undefined'' \<and> typeof existsUUID \<noteq> ''undefined'' then
                await semaphore_release (\<lambda>_. return existsUUID)
              else
                await (lift (field (Some response) ''message'')) (\<lambda>message. throw (ErrorOf message))))
          else
            await (checkIfItemParentIsShared_call W ''folder'' parent
                     (literal [(''uuid'', str uuid), (''name'', str name)])) (\<lambda>_.
            await semaphore_release (\<lambda>_. return (str uuid)))))))))
       (\<lambda>e. await semaphore_release (\<lambda>_. throw e)))"

definition trashItem :: "world \<Rightarrow> string \<Rightarrow> string \<Rightarrow> unit task" where
  "trashItem W type uuid =
     await (apiRequest_call W (post (if type = ''folder'' then ''/v3/dir/trash'' else ''/v3/file/trash'')
              (literal [(''uuid'', str uuid)]))) (\<lambda>response.
     await (lift (field (Some response) ''status'')) (\<lambda>status.
       if \<not> truthy status then
         await (lift (field (Some response) ''code'')) (\<lambda>code.
           if arrayIncludes [''folder_not_found'', ''file_not_found''] code then return ()
           else await (lift (field (Some response) ''message'')) (\<lambda>message. throw (ErrorOf message)))
       else return ()))"

definition moveFile :: "world \<Rightarrow> jsval \<Rightarrow> string \<Rightarrow> unit task" where
  "moveFile W file parent =
     await (lift (field file ''uuid'')) (\<lambda>fileUuid.
     await (apiRequest_call W (post ''/v3/file/move''
              (literal [(''uuid'', fileUuid), (''to'', str parent)]))) (\<lambda>response.
     await (lift (field (Some response) ''status'')) (\<lambda>status.
       if \<not> truthy status then
         await (lift (field (Some response) ''code'')) (\<lambda>code.
           if arrayIncludes [''file_not_found''] code then return ()
           else await (lift (field (Some response) ''message'')) (\<lambda>message. throw (ErrorOf message)))
       else
         await (lift (field file ''name'')) (\<lambda>fileName.
         await (lift (field file ''size'')) (\<lambda>fileSize.
         await (lift (field file ''mime'')) (\<lambda>fileMime.
         await (lift (field file ''key'')) (\<lambda>fileKey.
         await (lift (field file ''lastModified'')) (\<lambda>fileLastModified.
         checkIfItemParentIsShared_call W ''file'' parent
           (literal [(''uuid'', fileUuid), (''name'', fileName), (''size'', fileSize),
                     (''mime'', fileMime), (''key'', fileKey),
                     (''lastModified'', fileLastModified)])))))))))"

definition moveFolder :: "world \<Rightarrow> jsval \<Rightarrow> string \<Rightarrow> unit task" where
  "moveFolder W folder parent =
     await (lift (field folder ''uuid'')) (\<lambda>folderUuid.
     await (apiRequest_call W (post ''/v3/dir/move''
              (literal [(''uuid'', folderUuid), (''to'', str parent)]))) (\<lambda>response.
     await (lift (field (Some response) ''status'')) (\<lambda>status.
       if \<not> truthy status then
         await (lift (field (Some response) ''code'')) (\<lambda>code.
           if arrayIncludes [''folder_not_found''] code then return ()
           else await (lift (field (Some response) ''message'')) (\<lambda>message. throw (ErrorOf message)))
       else
         await (lift (field folder ''name'')) (\<lambda>folderName.
         checkIfItemParentIsShared_call W ''folder'' parent
           (literal [(''name'', folderName), (''uuid'', folderUuid)])))))"

definition renameFile :: "world \<Rightarrow> jsval \<Rightarrow> string \<Rightarrow> unit task" where
  "renameFile W file name =
     (let nameHashed = hashFn W (toLowerCase name) in
      await (lift (db_get W ''masterKeys'')) (\<lambda>masterKeys.
      await (lift (field file ''size'')) (\<lambda>fileSize.
      await (lift (field file ''mime'')) (\<lambda>fileMime.
      await (lift (field file ''key'')) (\<lambda>fileKey.
      await (lift (field file ''lastModified'')) (\<lambda>fileLastModified.
      let metaData = literal [(''name'', str name), (''size'', fileSize), (''mime'', fileMime),
                              (''key'', fileKey), (''lastModified'', fileLastModified)] in
      await (lift (lastMasterKey masterKeys)) (\<lambda>key.
      await (lift (encryptMetadata W (JSON_stringify W metaData) key)) (\<lambda>encrypted.
      await (lift (encryptMetadata W name fileKey)) (\<lambda>encryptedName.
      await (lift (field file ''uuid'')) (\<lambda>fileUuid.
      await (apiRequest_call W (post ''/v3/file/rename''
               (literal [(''uuid'', fileUuid), (''name'', str encryptedName),
                         (''nameHashed'', str nameHashed), (''metadata'', str encrypted)]))) (\<lambda>response.
      await (lift (field (Some response) ''status'')) (\<lambda>status.
        if \<not> truthy status then
          await (lift (field (Some response) ''code'')) (\<lambda>code.
            if arrayIncludes [''file_not_found''] code then return ()
            else await (lift (field (Some response) ''message'')) (\<lambda>message. throw (ErrorOf message)))
        else
          checkIfItemIsSharedForRename_call W ''file'' fileUuid metaData))))))))))))"

definition renameFolder :: "world \<Rightarrow> jsval \<Rightarrow> string \<Rightarrow> unit task" where
  "renameFolder W folder name =
     (let nameHashed = hashFn W (toLowerCase name) in
      await (lift (db_get W ''masterKeys'')) (\<lambda>masterKeys.
      await (lift (lastMasterKey masterKeys)) (\<lambda>key.
      await (lift (encryptMetadata W (JSON_stringify W (literal [(''name'', str name)])) key)) (\<lambda>encrypted.
      await (lift (field folder ''uuid'')) (\<lambda>folderUuid.
      await (apiRequest_call W (post ''/v3/dir/rename''
               (literal [(''uuid'', folderUuid), (''name'', str encrypted),
                         (''nameHashed'', str nameHashed)]))) (\<lambda>response.
      await (lift (field (Some response) ''status'')) (\<lambda>status.
        if \<not> truthy status then
          await (lift (field (Some response) ''code'')) (\<lambda>code.
            if arrayIncludes [''folder_not_found''] code then return ()
            else await (lift (field (Some response) ''message'')) (\<lambda>message. throw (ErrorOf message)))
        else
          checkIfItemIsSharedForRename_call W ''folder'' folderUuid
            (literal [(''name'', str name)]))))))))"

section \<open>The metadata propagator: the items of a folder\<close>

text \<open>
  \<^verbatim>\<open>checkIfItemParentIsShared\<close> with a folder lists the folder and its contents, once for the
  users the parent is shared with (\<^verbatim>\<open>itemsToShare\<close>) and once for its public links
  (\<^verbatim>\<open>itemsToLink\<close>). The entries that \<^verbatim>\<open>/v3/dir/download\<close> returns are records of strings.
\<close>

record file_entry =
  fe_uuid :: string
  fe_parent :: string
  fe_metadata :: string

record folder_entry =
  fo_uuid :: string
  fo_parent :: string
  fo_name :: string

record file_metadata =
  fm_name :: string
  fm_size :: jsval
  fm_mime :: string
  fm_key :: jsval
  fm_lastModified :: jsval

datatype item_metadata = FolderName string | FileMetadata file_metadata

record item =
  it_uuid :: string
  it_parent :: string
  it_metadata :: item_metadata
  it_type :: string

text \<open>The loop over \<^verbatim>\<open>contents.files\<close>. \<^verbatim>\<open>decryptFileMetadata\<close> and \<^verbatim>\<open>striptags\<close> are not called
  inside a \<^verbatim>\<open>try\<close>: an exception leaves the loop and the list is never used.\<close>

fun filesLoop :: "world \<Rightarrow> jsval \<Rightarrow> file_entry list \<Rightarrow> item list \<Rightarrow> error + item list" where
  "filesLoop W masterKeys [] items = Inr items"
| "filesLoop W masterKeys (f # files) items =
     (case decryptFileMetadata W (fe_metadata f) masterKeys of
        Inl e \<Rightarrow> Inl e
      | Inr decrypted \<Rightarrow>
          if typeof decrypted = ''object'' then
            (case field decrypted ''name'' of
               Inl e \<Rightarrow> Inl e
             | Inr name \<Rightarrow>
                 if typeof name = ''string'' then
                   (case striptags W name of
                      Inl e \<Rightarrow> Inl e
                    | Inr name' \<Rightarrow>
                        if length name' > 0 then
                          (case striptags W (case field decrypted ''mime'' of Inr m \<Rightarrow> m | Inl e \<Rightarrow> None) of
                             Inl e \<Rightarrow> Inl e
                           | Inr mime' \<Rightarrow>
                               filesLoop W masterKeys files
                                 (items @ [\<lparr>it_uuid = fe_uuid f, it_parent = fe_parent f,
                                    it_metadata = FileMetadata
                                      \<lparr>fm_name = name',
                                       fm_size = (case field decrypted ''size'' of Inr v \<Rightarrow> v | Inl e \<Rightarrow> None),
                                       fm_mime = mime',
                                       fm_key = (case field decrypted ''key'' of Inr v \<Rightarrow> v | Inl e \<Rightarrow> None),
                                       fm_lastModified = (case field decrypted ''lastModified'' of Inr v \<Rightarrow> v | Inl e \<Rightarrow> None)\<rparr>,
                                    it_type = ''file''\<rparr>]))
                        else filesLoop W masterKeys files items)
                 else filesLoop W masterKeys files items)
          else filesLoop W masterKeys files items)"

text \<open>
  The loop over \<^verbatim>\<open>contents.folders\<close>. The name is decrypted inside \<^verbatim>\<open>try { var decrypted = ... }
  catch (e) {}\<close>: \<^verbatim>\<open>decrypted\<close> is a \<^verbatim>\<open>var\<close>, one variable of the enclosing function, so when the
  decryption (or \<^verbatim>\<open>striptags\<close>) throws it keeps the value of the iteration before. The
  variable is the argument \<open>decrypted\<close>; \<open>i\<close> is the loop index.
\<close>

fun foldersLoop :: "world \<Rightarrow> jsval \<Rightarrow> string \<Rightarrow> folder_entry list \<Rightarrow> nat \<Rightarrow> string option \<Rightarrow> item list \<Rightarrow> item list" where
  "foldersLoop W masterKeys uuid [] i decrypted items = items"
| "foldersLoop W masterKeys uuid (f # folders) i decrypted items =
     (let decrypted' =
            (case decryptFolderName W (fo_name f) masterKeys of
               Inl e \<Rightarrow> decrypted
             | Inr name \<Rightarrow> (case striptags W name of Inl e \<Rightarrow> decrypted | Inr name' \<Rightarrow> Some name'))
      in foldersLoop W masterKeys uuid folders (i + 1) decrypted'
           (case decrypted' of
              None \<Rightarrow> items
            | Some name' \<Rightarrow>
                if length name' > 0 then
                  if fo_uuid f \<noteq> uuid \<and> fo_parent f \<noteq> ''base'' then
                    items @ [\<lparr>it_uuid = fo_uuid f,
                              it_parent = (if i = 0 then ''none'' else fo_parent f),
                              it_metadata = FolderName name', it_type = ''folder''\<rparr>]
                  else items
                else items))"

text \<open>Lines 737--793: the list for the users of a shared parent.\<close>

definition itemsToShare :: "world \<Rightarrow> jsval \<Rightarrow> string \<Rightarrow> string \<Rightarrow> string \<Rightarrow> file_entry list \<Rightarrow> folder_entry list \<Rightarrow> error + item list" where
  "itemsToShare W masterKeys parent uuid name files folders =
     (case filesLoop W masterKeys files
             [\<lparr>it_uuid = uuid, it_parent = parent, it_metadata = FolderName name, it_type = ''folder''\<rparr>] of
        Inl e \<Rightarrow> Inl e
      | Inr items \<Rightarrow> Inr (foldersLoop W masterKeys uuid folders 0 None items))"

text \<open>Lines 962--1018: the list for the public links of a linked parent, by the same two loops.\<close>

definition itemsToLink :: "world \<Rightarrow> jsval \<Rightarrow> string \<Rightarrow> string \<Rightarrow> string \<Rightarrow> file_entry list \<Rightarrow> folder_entry list \<Rightarrow> error + item list" where
  "itemsToLink W masterKeys parent uuid name files folders =
     (case filesLoop W masterKeys files
             [\<lparr>it_uuid = uuid, it_parent = parent, it_metadata = FolderName name, it_type = ''folder''\<rparr>] of
        Inl e \<Rightarrow> Inl e
      | Inr items \<Rightarrow> Inr (foldersLoop W masterKeys uuid folders 0 None items))"

subsection \<open>When \<^verbatim>\<open>checkIfItemParentIsShared\<close> resolves\<close>

text \<open>
  The promise of \<^verbatim>\<open>checkIfItemParentIsShared\<close> is resolved by \<^verbatim>\<open>done()\<close> once \<^verbatim>\<open>shareCheckDone\<close> and
  \<^verbatim>\<open>linkCheckDone\<close> are both set (lines 654--668); it is rejected only when a read of the store
  fails. What the server answers to \<^verbatim>\<open>isSharingFolder\<close>, \<^verbatim>\<open>isPublicLinkingFolder\<close> and the two
  calls of \<^verbatim>\<open>getFolderContents\<close> is given; every request that the two sides send out for an
  item is taken to come back, so that its callback runs once.
\<close>

record propagation =
  sharingReply :: "error + jsval \<times> jsval"      \<comment> \<open>\<^verbatim>\<open>{sharing, users}\<close> of \<^verbatim>\<open>isSharingFolder(parent)\<close>\<close>
  linkingReply :: "error + jsval \<times> jsval"      \<comment> \<open>\<^verbatim>\<open>{linking, links}\<close> of \<^verbatim>\<open>isPublicLinkingFolder(parent)\<close>\<close>
  contentsForShare :: "error + file_entry list \<times> folder_entry list"
  contentsForLink :: "error + file_entry list \<times> folder_entry list"

text \<open>\<^verbatim>\<open>x.length\<close> and \<^verbatim>\<open>x[i]\<close> below it. A value without a length gives a loop that never runs
  and a callback that is never called, as the empty array does. The server sends an array;
  an object with a \<^verbatim>\<open>length\<close> member of its own is taken as one without.\<close>

fun elements :: "jsval \<Rightarrow> error + json list" where
  "elements None = Inl TypeError"
| "elements (Some JNull) = Inl TypeError"
| "elements (Some (JArr xs)) = Inr xs"
| "elements (Some (JStr s)) = Inr (map (\<lambda>c. JStr [c]) s)"
| "elements (Some v) = Inr []"

text \<open>\<^verbatim>\<open>doneSharing\<close>, \<^verbatim>\<open>doneSharingItem\<close>, \<^verbatim>\<open>doneLinking\<close> and \<^verbatim>\<open>itemLinked\<close>: the counter goes up by one,
  and the flag of the side is set when the counter has reached the total. Beyond
  these and the early exits below nothing sets the flag; the timer of line 670 only
  calls \<^verbatim>\<open>done()\<close> again. \<open>allDone n\<close> is the flag after the \<open>n\<close> callbacks have run.\<close>

definition oneDone :: "nat \<Rightarrow> nat \<times> bool \<Rightarrow> nat \<times> bool" where
  "oneDone expected s = (case s of (n, complete) \<Rightarrow> (n + 1, complete \<or> n + 1 \<ge> expected))"

definition allDone :: "nat \<Rightarrow> bool" where
  "allDone expected = snd ((oneDone expected ^^ expected) (0, False))"

text \<open>\<^verbatim>\<open>metaData.uuid\<close> and \<^verbatim>\<open>metaData.name\<close>, which the callers pass as strings.\<close>

definition stringOf :: "json \<Rightarrow> string \<Rightarrow> string" where
  "stringOf metaData k = (case field (Some metaData) k of Inr (Some (JStr s)) \<Rightarrow> s | _ \<Rightarrow> [])"

text \<open>Lines 672--874. An exception inside a loop ends in a \<^verbatim>\<open>catch\<close> that sets the flag; a
  loop runs only when there is a callback to count, which sets the flag as well.\<close>

definition shareSide :: "world \<Rightarrow> propagation \<Rightarrow> jsval \<Rightarrow> string \<Rightarrow> string \<Rightarrow> json \<Rightarrow> bool" where
  "shareSide W R masterKeys type parent metaData =
     (case sharingReply R of
        Inl e \<Rightarrow> True
      | Inr (sharing, users) \<Rightarrow>
          if \<not> truthy sharing then True
          else
            (case elements users of
               Inl e \<Rightarrow> True
             | Inr us \<Rightarrow>
                 if type = ''file'' then allDone (length us)
                 else
                   (case contentsForShare R of
                      Inl e \<Rightarrow> True
                    | Inr (files, folders) \<Rightarrow>
                        (case itemsToShare W masterKeys parent (stringOf metaData ''uuid'')
                                (stringOf metaData ''name'') files folders of
                           Inl e \<Rightarrow> True
                         | Inr items \<Rightarrow> allDone (length items * length us)))))"

text \<open>Lines 876--1114, in the same way.\<close>

definition linkSide :: "world \<Rightarrow> propagation \<Rightarrow> jsval \<Rightarrow> string \<Rightarrow> string \<Rightarrow> json \<Rightarrow> bool" where
  "linkSide W R masterKeys type parent metaData =
     (case linkingReply R of
        Inl e \<Rightarrow> True
      | Inr (linking, links) \<Rightarrow>
          if \<not> truthy linking then True
          else
            (case elements links of
               Inl e \<Rightarrow> True
             | Inr ls \<Rightarrow>
                 if type = ''file'' then allDone (length ls)
                 else
                   (case contentsForLink R of
                      Inl e \<Rightarrow> True
                    | Inr (files, folders) \<Rightarrow>
                        (case itemsToLink W masterKeys parent (stringOf metaData ''uuid'')
                                (stringOf metaData ''name'') files folders of
                           Inl e \<Rightarrow> True
                         | Inr items \<Rightarrow> allDone (length items * length ls)))))"

definition checkIfItemParentIsShared :: "world \<Rightarrow> propagation \<Rightarrow> string \<Rightarrow> string \<Rightarrow> json \<Rightarrow> unit outcome option" where
  "checkIfItemParentIsShared W R type parent metaData =
     (case db_get W ''apiKey'' of
        Inl e \<Rightarrow> Some (Rejected e)
      | Inr k \<Rightarrow>
          (case db_get W ''masterKeys'' of
             Inl e \<Rightarrow> Some (Rejected e)
           | Inr masterKeys \<Rightarrow>
               if shareSide W R masterKeys type parent metaData \<and>
                  linkSide W R masterKeys type parent metaData
               then Some (Resolved ()) else None))"

section \<open>The transport: requests, retries and the pause gate\<close>

text \<open>
  \<^verbatim>\<open>doAPIRequest\<close>, \<^verbatim>\<open>uploadChunk\<close> and \<^verbatim>\<open>downloadChunk\<close> are driven by callbacks. Each is a
  machine: its state holds the local variables of the closure, the promise, the
  configuration store and the effects so far, and one step runs one callback. What the
  environment does is a list of events. A status needs a request that has no response
  yet, and the end of a body a response with status 200; an error or a timeout may be
  reported for any request issued, at any time and more than once. A promise keeps the
  first value it is settled with. The progress events sent to the ports while bytes flow
  are left out.
\<close>

datatype event =
    Run bool                         \<comment> \<open>a scheduled call of \<^verbatim>\<open>doRequest\<close> runs; the flag is \<^verbatim>\<open>navigator.onLine\<close>\<close>
  | Poll "error + bool"              \<comment> \<open>the reads of \<^verbatim>\<open>getPausedStatus\<close> settle; the argument is what
                                         \<^verbatim>\<open>isSyncLocationPaused\<close> yields\<close>
  | Status nat                       \<comment> \<open>a response arrives, with its status code\<close>
  | End string                       \<comment> \<open>a response with status 200 ends, with its body\<close>
  | EndBytes bytes                   \<comment> \<open>the same for a download\<close>
  | ResponseError
  | RequestError
  | RequestTimeout
  | StoreChanged string "error + jsval"  \<comment> \<open>another component writes the configuration store\<close>
  | DataChanged json                 \<comment> \<open>the caller changes the object it passed as \<^verbatim>\<open>data\<close>\<close>

record 'a machine =
  gate :: bool                       \<comment> \<open>still waiting in \<^verbatim>\<open>getPausedStatus\<close>\<close>
  pending :: nat                     \<comment> \<open>calls of \<^verbatim>\<open>getPausedStatus\<close> or \<^verbatim>\<open>doRequest\<close> scheduled and not yet run\<close>
  currentTries :: nat
  inflight :: nat                    \<comment> \<open>requests without a response yet\<close>
  receiving :: nat                   \<comment> \<open>responses with status 200 that have not ended\<close>
  store :: "string \<Rightarrow> error + jsval"  \<comment> \<open>what \<^verbatim>\<open>db.get(key)\<close> yields now\<close>
  dataObject :: json                 \<comment> \<open>what the object \<^verbatim>\<open>data\<close> of \<^verbatim>\<open>doAPIRequest\<close> holds now\<close>
  promise :: "'a outcome option"
  trace :: "effect list"

definition settle :: "'a outcome \<Rightarrow> 'a machine \<Rightarrow> 'a machine" where
  "settle r m = (case promise m of None \<Rightarrow> m\<lparr>promise := Some r\<rparr> | Some r' \<Rightarrow> m)"

definition emit :: "effect \<Rightarrow> 'a machine \<Rightarrow> 'a machine" where
  "emit e m = m\<lparr>trace := trace m @ [e]\<rparr>"

definition schedule :: "nat \<Rightarrow> 'a machine \<Rightarrow> 'a machine" where
  "schedule ms m = m\<lparr>pending := pending m + 1, trace := trace m @ [SetTimeout ms]\<rparr>"

definition start :: "(string \<Rightarrow> error + jsval) \<Rightarrow> 'a machine" where
  "start st = \<lparr>gate = False, pending = 0, currentTries = 0, inflight = 0, receiving = 0,
     store = st, dataObject = JObj [], promise = None, trace = []\<rparr>"

definition storeChanged :: "string \<Rightarrow> error + jsval \<Rightarrow> 'a machine \<Rightarrow> 'a machine" where
  "storeChanged k v m = m\<lparr>store := (store m)(k := v)\<rparr>"

subsection \<open>\<^verbatim>\<open>getAPIServer\<close> and \<^verbatim>\<open>doAPIRequest\<close>\<close>

text \<open>\<^verbatim>\<open>getRandomArbitrary\<close> of \<^verbatim>\<open>../helpers\<close> is a parameter; an index outside the array
  reads \<^verbatim>\<open>undefined\<close>.\<close>

definition getAPIServer :: "constants \<Rightarrow> (int \<Rightarrow> int \<Rightarrow> int) \<Rightarrow> string option" where
  "getAPIServer C getRandomArbitrary =
     (let i = getRandomArbitrary 0 (int (length (apiServers C)) - 1)
      in if 0 \<le> i \<and> i < int (length (apiServers C)) then Some (apiServers C ! nat i) else None)"

record api_args =
  httpMethod :: string
  endpoint :: string
  data :: jsval
  timeout :: nat
  includeRaw :: bool
  apiKey :: jsval

text \<open>The parameter default \<^verbatim>\<open>data = {}\<close>. Line 83 tests \<^verbatim>\<open>typeof data !== "undefined"\<close> once
  more before hashing; after the default that test always holds.\<close>

definition dataOf :: "api_args \<Rightarrow> json" where
  "dataOf a = (case data a of None \<Rightarrow> JObj [] | Some d \<Rightarrow> d)"

definition api_checksum :: "world \<Rightarrow> api_args \<Rightarrow> error + string" where
  "api_checksum W a = bufferToHash W (encode W (JSON_stringify W (dataOf a)))"

text \<open>
  \<^verbatim>\<open>data\<close> is passed by reference. Line 83 serialises it once, when \<^verbatim>\<open>doAPIRequest\<close> is called,
  for the checksum; line 197 serialises it again in every run of \<^verbatim>\<open>doRequest\<close>, which happens
  after the hash has resolved and again at every retry, and lines 98--103 once more for
  the error message. Between these the caller may have changed the object: an object keeps
  being an object and an array an array, any other value cannot change, and the \<^verbatim>\<open>{}\<close> of
  the default is known to nobody else.
\<close>

fun changed :: "json \<Rightarrow> json \<Rightarrow> json" where
  "changed (JObj kvs) (JObj kvs') = JObj kvs'"
| "changed (JArr xs) (JArr xs') = JArr xs'"
| "changed d d' = d"

definition api_request :: "world \<Rightarrow> constants \<Rightarrow> api_args \<Rightarrow> string \<Rightarrow> json \<Rightarrow> request" where
  "api_request W C a checksum d =
     \<lparr>rq_method = toUpperCase (httpMethod a),
      rq_hostname = ''gateway.filen.io'',
      rq_path = endpoint a,
      rq_headers = [(''Content-Type'', ''application/json''),
                    (''User-Agent'', userAgent C),
                    (''Authorization'', ''Bearer '' @ String_of W (apiKey a)),
                    (''Checksum'', checksum)],
      rq_body = (if toUpperCase (httpMethod a) = ''POST'' then Text (JSON_stringify W d) else NoBody)\<rparr>"

definition api_maxRetries :: "world \<Rightarrow> constants \<Rightarrow> api_args \<Rightarrow> json \<Rightarrow> error" where
  "api_maxRetries W C a d =
     ErrorMsg (''Maximum retries ('' @ decimal (maxRetryAPIRequest C) @ '') reached for API request: '' @
       JSON_stringify W (literal [(''method'', str (httpMethod a)), (''endpoint'', str (endpoint a)),
                                  (''data'', Some d), (''timeout'', Some (JNum (int (timeout a))))]))"

definition api_doRequest :: "world \<Rightarrow> constants \<Rightarrow> api_args \<Rightarrow> string \<Rightarrow> bool \<Rightarrow> json machine \<Rightarrow> json machine" where
  "api_doRequest W C a checksum onLine m =
     (if \<not> onLine then schedule (retryAPIRequestTimeout C) m
      else if currentTries m \<ge> maxRetryAPIRequest C then
        settle (Rejected (api_maxRetries W C a (dataObject m))) m
      else emit (HttpRequest (api_request W C a checksum (dataObject m)))
             (m\<lparr>currentTries := currentTries m + 1, inflight := inflight m + 1\<rparr>))"

fun api_step :: "world \<Rightarrow> constants \<Rightarrow> api_args \<Rightarrow> string \<Rightarrow> event \<Rightarrow> json machine \<Rightarrow> json machine" where
  "api_step W C a checksum (Run onLine) m =
     (if pending m = 0 then m
      else api_doRequest W C a checksum onLine (m\<lparr>pending := pending m - 1\<rparr>))"
| "api_step W C a checksum (Status statusCode) m =
     (if inflight m = 0 then m
      else if statusCode \<noteq> 200 then
        schedule (retryAPIRequestTimeout C) (emit LogError (m\<lparr>inflight := inflight m - 1\<rparr>))
      else m\<lparr>inflight := inflight m - 1, receiving := receiving m + 1\<rparr>)"
| "api_step W C a checksum (End s) m =
     (if receiving m = 0 then m
      else let m' = m\<lparr>receiving := receiving m - 1\<rparr> in
        case JSON_parse W s of
          None \<Rightarrow> settle (Rejected SyntaxError) (emit LogError m')
        | Some obj \<Rightarrow>
            (case field (Some obj) ''code'' of
               Inl e \<Rightarrow> settle (Rejected e) (emit LogError m')
             | Inr code \<Rightarrow>
                 if typeof code = ''string'' \<and> code = str ''internal_error'' then
                   schedule (retryAPIRequestTimeout C) m'
                 else if includeRaw a then
                   settle (Resolved (JObj [(''data'', obj), (''raw'', JStr s)])) m'
                 else settle (Resolved obj) m'))"
| "api_step W C a checksum RequestError m =
     (if currentTries m = 0 then m
      else schedule (retryAPIRequestTimeout C) (emit LogError m))"
| "api_step W C a checksum RequestTimeout m =
     (if currentTries m = 0 then m
      else schedule (retryAPIRequestTimeout C) (emit RequestDestroy (emit LogError m)))"
| "api_step W C a checksum (StoreChanged k v) m = storeChanged k v m"
| "api_step W C a checksum (DataChanged d) m =
     (if data a = None then m else m\<lparr>dataObject := changed (dataObject m) d\<rparr>)"
| "api_step W C a checksum e m = m"

text \<open>\<^verbatim>\<open>doAPIRequest\<close>: the checksum is computed first; when it is there, \<^verbatim>\<open>doRequest()\<close> is
  called.\<close>

definition doAPIRequest :: "world \<Rightarrow> constants \<Rightarrow> api_args \<Rightarrow> (string \<Rightarrow> error + jsval) \<Rightarrow> event list \<Rightarrow> json machine" where
  "doAPIRequest W C a st events =
     (case api_checksum W a of
        Inl e \<Rightarrow> settle (Rejected e) (start st)
      | Inr checksum \<Rightarrow>
          fold (api_step W C a checksum) events ((start st)\<lparr>pending := 1, dataObject := dataOf a\<rparr>))"

text \<open>\<^verbatim>\<open>apiRequest\<close>: the awaited response is inspected once \<^verbatim>\<open>doAPIRequest\<close> has resolved.\<close>

definition sessionInvalid :: "jsval \<Rightarrow> jsval \<Rightarrow> bool" where
  "sessionInvalid code message =
     (case (code, message) of
        (Some (JStr c), Some (JStr msg)) \<Rightarrow>
           indexOf (toLowerCase msg) ''api key not found'' \<noteq> -1 \<or>
           indexOf (toLowerCase msg) ''invalid api key'' \<noteq> -1 \<or>
           c = ''api_key_not_found''
      | _ \<Rightarrow> False)"

definition apiRequest_inspect :: "json \<Rightarrow> json machine \<Rightarrow> json machine" where
  "apiRequest_inspect response m =
     (if typeof (Some response) = ''object'' then
        (case field (Some response) ''code'' of
           Inl e \<Rightarrow> m\<lparr>promise := Some (Rejected e)\<rparr>
         | Inr code \<Rightarrow>
             (case field (Some response) ''message'' of
                Inl e \<Rightarrow> m\<lparr>promise := Some (Rejected e)\<rparr>
              | Inr message \<Rightarrow>
                  if sessionInvalid code message then
                    (emit Logout m)\<lparr>promise := Some (Rejected (ErrorMsg ''Session invalidated''))\<rparr>
                  else m))
      else m)"

text \<open>\<^verbatim>\<open>const dbAPIKey = typeof apiKey === "string" && apiKey.length === 64 ? apiKey : await
  db.get("apiKey")\<close>, and the arguments handed to \<^verbatim>\<open>doAPIRequest\<close> (its \<^verbatim>\<open>timeout\<close> takes the
  default).\<close>

definition dbAPIKey :: "api_call \<Rightarrow> (string \<Rightarrow> error + jsval) \<Rightarrow> error + jsval" where
  "dbAPIKey c st =
     (case ac_apiKey c of
        Some (JStr k) \<Rightarrow> if length k = 64 then Inr (str k) else st ''apiKey''
      | _ \<Rightarrow> st ''apiKey'')"

definition apiRequest_args :: "api_call \<Rightarrow> jsval \<Rightarrow> api_args" where
  "apiRequest_args c k =
     \<lparr>httpMethod = ac_method c, endpoint = ac_endpoint c, data = ac_data c,
      timeout = 500000, includeRaw = ac_includeRaw c, apiKey = k\<rparr>"

definition apiRequest :: "world \<Rightarrow> constants \<Rightarrow> api_call \<Rightarrow> (string \<Rightarrow> error + jsval) \<Rightarrow> event list \<Rightarrow> json machine" where
  "apiRequest W C c st events =
     (case dbAPIKey c st of
        Inl e \<Rightarrow> settle (Rejected e) (start st)
      | Inr k \<Rightarrow>
          (let m = doAPIRequest W C (apiRequest_args c k) st events
           in case promise m of
                Some (Resolved response) \<Rightarrow> apiRequest_inspect response m
              | _ \<Rightarrow> m))"

subsection \<open>The pause gate\<close>

text \<open>
  One run of \<^verbatim>\<open>getPausedStatus\<close>, once its reads have settled: \<open>True\<close> when it calls
  \<^verbatim>\<open>resolve(true)\<close>, \<open>False\<close> when it calls \<^verbatim>\<open>setTimeout(getPausedStatus, 1000)\<close>; the second
  component tells whether \<^verbatim>\<open>log.error\<close> was called (a read was rejected).
\<close>

definition locationUuid :: "jsval \<Rightarrow> error + string option" where
  "locationUuid location =
     (if typeof location \<noteq> ''undefined'' then
        (case field location ''uuid'' of
           Inl e \<Rightarrow> Inl e
         | Inr (Some (JStr u)) \<Rightarrow> Inr (Some u)
         | Inr v \<Rightarrow> Inr None)
      else Inr None)"

definition pausedKey :: "string \<Rightarrow> string" where
  "pausedKey frm =
     (if indexOf frm ''download'' \<noteq> -1 then ''downloadPaused''
      else if indexOf frm ''upload'' \<noteq> -1 then ''uploadPaused''
      else ''paused'')"

definition getPausedStatus :: "string \<Rightarrow> jsval \<Rightarrow> (string \<Rightarrow> error + jsval) \<Rightarrow> error + bool \<Rightarrow> bool \<times> bool" where
  "getPausedStatus frm location st locationPaused =
     (if frm = ''sync'' then
        (case locationUuid location of
           Inr (Some u) \<Rightarrow>
             (case (st ''paused'', locationPaused) of
                (Inr paused, Inr lp) \<Rightarrow> if truthy paused \<or> lp then (False, False) else (True, False)
              | _ \<Rightarrow> (False, True))
         | _ \<Rightarrow>
             (case st ''paused'' of
                Inr paused \<Rightarrow> if truthy paused then (False, False) else (True, False)
              | Inl e \<Rightarrow> (False, True)))
      else
        (case st (pausedKey frm) of
           Inr paused \<Rightarrow> if truthy paused then (False, False) else (True, False)
         | Inl e \<Rightarrow> (False, True)))"

text \<open>The first call of \<^verbatim>\<open>getPausedStatus\<close> is made by the executor of the awaited promise:
  reading \<^verbatim>\<open>location.uuid\<close> of a \<^verbatim>\<open>null\<close> location there rejects the whole call.\<close>

definition enterGate :: "string \<Rightarrow> jsval \<Rightarrow> 'a machine \<Rightarrow> 'a machine" where
  "enterGate frm location m =
     (if frm = ''sync'' then
        (case locationUuid location of
           Inl e \<Rightarrow> settle (Rejected e) m
         | Inr u \<Rightarrow> m\<lparr>gate := True, pending := 1\<rparr>)
      else m\<lparr>gate := True, pending := 1\<rparr>)"

text \<open>The rate handed to \<^verbatim>\<open>setRate\<close>: \<^verbatim>\<open>uploadKbps\<close> or \<^verbatim>\<open>downloadKbps\<close> of the networking settings
  times 1024 for a sync transfer, when it is a positive number, and \<^verbatim>\<open>122070 * 1024\<close> otherwise
  (a setting that is not a number keeps the default here).\<close>

definition setBps :: "jsval \<Rightarrow> string \<Rightarrow> string \<Rightarrow> int" where
  "setBps networkingSettings frm key =
     (if networkingSettings \<noteq> Some JNull \<and> typeof networkingSettings = ''object'' \<and> frm = ''sync'' then
        (case field networkingSettings key of
           Inr (Some (JNum kbps)) \<Rightarrow> if kbps > 0 then kbps * 1024 else 122070 * 1024
         | _ \<Rightarrow> 122070 * 1024)
      else 122070 * 1024)"

subsection \<open>\<^verbatim>\<open>uploadChunk\<close>\<close>

record upload_args =
  up_queryParams :: string
  up_data :: bytes
  up_from :: string
  up_location :: jsval

record upload_reads =
  ur_networkingSettings :: jsval
  ur_apiKey :: jsval
  ur_chunkHash :: string

definition up_queryParams' :: "world \<Rightarrow> upload_args \<Rightarrow> upload_reads \<Rightarrow> string" where
  "up_queryParams' W a r = up_queryParams a @ ''&hash='' @ encodeURIComponent W (ur_chunkHash r)"

definition up_uuid :: "world \<Rightarrow> upload_args \<Rightarrow> upload_reads \<Rightarrow> string" where
  "up_uuid W a r = (case urlParamsGet W (up_queryParams' W a r) ''uuid'' of
                      Some u \<Rightarrow> if u = [] then [] else u | None \<Rightarrow> [])"

definition up_checksum :: "world \<Rightarrow> upload_args \<Rightarrow> upload_reads \<Rightarrow> error + string" where
  "up_checksum W a r =
     bufferToHash W (encode W (JSON_stringify W (parseURLParamsSearch W (up_queryParams' W a r))))"

definition up_request :: "world \<Rightarrow> constants \<Rightarrow> upload_args \<Rightarrow> upload_reads \<Rightarrow> string \<Rightarrow> request" where
  "up_request W C a r checksum =
     \<lparr>rq_method = ''POST'',
      rq_hostname = ''ingest.filen.io'',
      rq_path = ''/v3/upload?'' @ up_queryParams' W a r,
      rq_headers = [(''User-Agent'', userAgent C),
                    (''Authorization'', ''Bearer '' @ String_of W (ur_apiKey r)),
                    (''Content-Type'', ''application/x-www-form-urlencoded''),
                    (''Checksum'', checksum)],
      rq_body = Bytes (up_data a)\<rparr>"

definition up_doRequest :: "world \<Rightarrow> constants \<Rightarrow> upload_args \<Rightarrow> upload_reads \<Rightarrow> string \<Rightarrow> bool \<Rightarrow> json machine \<Rightarrow> json machine" where
  "up_doRequest W C a r checksum onLine m =
     (if \<not> onLine then schedule (retryUploadTimeout C) m
      else if currentTries m \<ge> maxRetryUpload C then
        settle (Rejected (ErrorMsg (''Max retries reached for upload '' @ up_uuid W a r))) m
      else emit (HttpRequest (up_request W C a r checksum))
             (m\<lparr>currentTries := currentTries m + 1, inflight := inflight m + 1\<rparr>))"

text \<open>The handler of \<^verbatim>\<open>response.on("end")\<close>.\<close>

definition up_end :: "world \<Rightarrow> string \<Rightarrow> json machine \<Rightarrow> json machine" where
  "up_end W s m =
     (case JSON_parse W s of
        None \<Rightarrow> settle (Rejected SyntaxError) m
      | Some obj \<Rightarrow>
          (case field (Some obj) ''status'' of
             Inl e \<Rightarrow> settle (Rejected e) m
           | Inr status \<Rightarrow>
               if \<not> truthy status then
                 (case field (Some obj) ''message'' of
                    Inr (Some (JStr message)) \<Rightarrow>
                      settle (Rejected (Value (str message)))
                        (emit ThrottleDestroy
                          (if indexOf (toLowerCase message) ''storage'' \<noteq> -1 then
                             storeChanged ''maxStorageReached'' (Inr (Some (JBool True)))
                               (emit (DbSet ''maxStorageReached'' (JBool True))
                                 (storeChanged ''paused'' (Inr (Some (JBool True)))
                                   (emit (DbSet ''paused'' (JBool True)) m)))
                           else m))
                  | _ \<Rightarrow> settle (Rejected TypeError) m)
               else settle (Resolved obj) m))"

fun up_step :: "world \<Rightarrow> constants \<Rightarrow> upload_args \<Rightarrow> upload_reads \<Rightarrow> event \<Rightarrow> json machine \<Rightarrow> json machine" where
  "up_step W C a r (Poll locationPaused) m =
     (if \<not> gate m \<or> pending m = 0 then m
      else case getPausedStatus (up_from a) (up_location a) (store m) locationPaused of
             (False, logged) \<Rightarrow> emit (SetTimeout 1000) (if logged then emit LogError m else m)
           | (True, logged) \<Rightarrow>
               (case up_checksum W a r of
                  Inl e \<Rightarrow> settle (Rejected e) (m\<lparr>gate := False, pending := 0\<rparr>)
                | Inr checksum \<Rightarrow>
                    emit (SetRate True (setBps (ur_networkingSettings r) (up_from a) ''uploadKbps''))
                      (m\<lparr>gate := False, pending := 1\<rparr>)))"
| "up_step W C a r (Run onLine) m =
     (if gate m \<or> pending m = 0 then m
      else case up_checksum W a r of
             Inl e \<Rightarrow> m
           | Inr checksum \<Rightarrow> up_doRequest W C a r checksum onLine (m\<lparr>pending := pending m - 1\<rparr>))"
| "up_step W C a r (Status statusCode) m =
     (if inflight m = 0 then m
      else if statusCode \<noteq> 200 then
        schedule (retryUploadTimeout C) (emit ThrottleDestroy (emit LogError (m\<lparr>inflight := inflight m - 1\<rparr>)))
      else m\<lparr>inflight := inflight m - 1, receiving := receiving m + 1\<rparr>)"
| "up_step W C a r (End s) m =
     (if receiving m = 0 then m else up_end W s (m\<lparr>receiving := receiving m - 1\<rparr>))"
| "up_step W C a r RequestError m =
     (if currentTries m = 0 then m
      else settle (Rejected (Failure ''request error'')) (emit ThrottleDestroy (emit LogError m)))"
| "up_step W C a r RequestTimeout m =
     (if currentTries m = 0 then m
      else settle (Rejected (ErrorMsg ''Upload request timed out''))
             (emit RequestDestroy (emit ThrottleDestroy (emit LogError m))))"
| "up_step W C a r (StoreChanged k v) m = storeChanged k v m"
| "up_step W C a r e m = m"

text \<open>The four reads of line 1325, in the order of the array.\<close>

definition up_reads :: "world \<Rightarrow> upload_args \<Rightarrow> (string \<Rightarrow> error + jsval) \<Rightarrow> error + (upload_reads \<times> jsval)" where
  "up_reads W a st =
     (case st ''networkingSettings'' of Inl e \<Rightarrow> Inl e | Inr networkingSettings \<Rightarrow>
     (case st ''maxStorageReached'' of Inl e \<Rightarrow> Inl e | Inr maxStorageReached \<Rightarrow>
     (case st ''apiKey'' of Inl e \<Rightarrow> Inl e | Inr k \<Rightarrow>
     (case bufferToHash W (up_data a) of Inl e \<Rightarrow> Inl e | Inr chunkHash \<Rightarrow>
        Inr (\<lparr>ur_networkingSettings = networkingSettings, ur_apiKey = k, ur_chunkHash = chunkHash\<rparr>,
             maxStorageReached)))))"

definition uploadChunk :: "world \<Rightarrow> constants \<Rightarrow> upload_args \<Rightarrow> (string \<Rightarrow> error + jsval) \<Rightarrow> event list \<Rightarrow> json machine" where
  "uploadChunk W C a st events =
     (case up_reads W a st of
        Inl e \<Rightarrow> settle (Rejected e) (start st)
      | Inr (r, maxStorageReached) \<Rightarrow>
          if truthy maxStorageReached then settle (Rejected (ErrorMsg ''Max storage reached'')) (start st)
          else fold (up_step W C a r) events (enterGate (up_from a) (up_location a) (start st)))"

subsection \<open>\<^verbatim>\<open>downloadChunk\<close>\<close>

record download_args =
  dl_region :: string
  dl_bucket :: string
  dl_uuid :: string
  dl_index :: nat
  dl_from :: string
  dl_location :: jsval

definition dl_path :: "download_args \<Rightarrow> string" where
  "dl_path a = ''/'' @ dl_region a @ ''/'' @ dl_bucket a @ ''/'' @ dl_uuid a @ ''/'' @ decimal (dl_index a)"

definition dl_request :: "constants \<Rightarrow> download_args \<Rightarrow> request" where
  "dl_request C a =
     \<lparr>rq_method = ''GET'',
      rq_hostname = ''down.filen.io'',
      rq_path = dl_path a,
      rq_headers = [(''User-Agent'', userAgent C)],
      rq_body = NoBody\<rparr>"

definition dl_doRequest :: "constants \<Rightarrow> download_args \<Rightarrow> bool \<Rightarrow> bytes machine \<Rightarrow> bytes machine" where
  "dl_doRequest C a onLine m =
     (if \<not> onLine then schedule (retryDownloadTimeout C) m
      else if currentTries m \<ge> maxRetryDownload C then
        settle (Rejected (ErrorMsg (''Max retries reached for '' @ dl_path a))) m
      else emit (HttpRequest (dl_request C a))
             (m\<lparr>currentTries := currentTries m + 1, inflight := inflight m + 1\<rparr>))"

fun dl_step :: "world \<Rightarrow> constants \<Rightarrow> download_args \<Rightarrow> jsval \<Rightarrow> event \<Rightarrow> bytes machine \<Rightarrow> bytes machine" where
  "dl_step W C a networkingSettings (Poll locationPaused) m =
     (if \<not> gate m \<or> pending m = 0 then m
      else case getPausedStatus (dl_from a) (dl_location a) (store m) locationPaused of
             (False, logged) \<Rightarrow> emit (SetTimeout 1000) (if logged then emit LogError m else m)
           | (True, logged) \<Rightarrow>
               emit (SetRate False (setBps networkingSettings (dl_from a) ''downloadKbps''))
                 (m\<lparr>gate := False, pending := 1\<rparr>))"
| "dl_step W C a networkingSettings (Run onLine) m =
     (if gate m \<or> pending m = 0 then m
      else dl_doRequest C a onLine (m\<lparr>pending := pending m - 1\<rparr>))"
| "dl_step W C a networkingSettings (Status statusCode) m =
     (if inflight m = 0 then m
      else if statusCode \<noteq> 200 then
        schedule (retryDownloadTimeout C) (emit ThrottleDestroy (emit LogError (m\<lparr>inflight := inflight m - 1\<rparr>)))
      else m\<lparr>inflight := inflight m - 1, receiving := receiving m + 1\<rparr>)"
| "dl_step W C a networkingSettings ResponseError m =
     (if receiving m = 0 then m
      else schedule (retryDownloadTimeout C) (emit ThrottleDestroy (emit LogError m)))"
| "dl_step W C a networkingSettings (EndBytes res) m =
     (if receiving m = 0 then m
      else emit ThrottleDestroy
             (case nodeBufferToArrayBuffer W res of
                Inl e \<Rightarrow> settle (Rejected e) (m\<lparr>receiving := receiving m - 1\<rparr>)
              | Inr buf \<Rightarrow> settle (Resolved buf) (m\<lparr>receiving := receiving m - 1\<rparr>)))"
| "dl_step W C a networkingSettings RequestError m =
     (if currentTries m = 0 then m
      else schedule (retryDownloadTimeout C) (emit ThrottleDestroy (emit LogError m)))"
| "dl_step W C a networkingSettings RequestTimeout m =
     (if currentTries m = 0 then m
      else schedule (retryDownloadTimeout C)
             (emit RequestDestroy (emit ThrottleDestroy (emit LogError m))))"
| "dl_step W C a networkingSettings (StoreChanged k v) m = storeChanged k v m"
| "dl_step W C a networkingSettings e m = m"

definition downloadChunk :: "world \<Rightarrow> constants \<Rightarrow> download_args \<Rightarrow> (string \<Rightarrow> error + jsval) \<Rightarrow> event list \<Rightarrow> bytes machine" where
  "downloadChunk W C a st events =
     (case st ''networkingSettings'' of
        Inl e \<Rightarrow> settle (Rejected e) (start st)
      | Inr networkingSettings \<Rightarrow>
          fold (dl_step W C a networkingSettings) events
            (enterGate (dl_from a) (dl_location a) (start st)))"

section \<open>Vocabulary of the properties\<close>

text \<open>A response object whose \<^verbatim>\<open>status\<close> is \<^verbatim>\<open>false\<close> (or missing, or falsy), its \<^verbatim>\<open>code\<close> and its
  \<^verbatim>\<open>message\<close>.\<close>

definition statusFalse :: "json \<Rightarrow> bool" where
  "statusFalse r = (case field (Some r) ''status'' of Inr s \<Rightarrow> \<not> truthy s | Inl e \<Rightarrow> False)"

definition codeOf :: "json \<Rightarrow> jsval" where
  "codeOf r = (case field (Some r) ''code'' of Inr c \<Rightarrow> c | Inl e \<Rightarrow> None)"

definition messageOf :: "json \<Rightarrow> jsval" where
  "messageOf r = (case field (Some r) ''message'' of Inr c \<Rightarrow> c | Inl e \<Rightarrow> None)"

definition dataOfResponse :: "json \<Rightarrow> jsval" where
  "dataOfResponse r = (case field (Some r) ''data'' of Inr c \<Rightarrow> c | Inl e \<Rightarrow> None)"

text \<open>\<open>containsCI s w\<close>: some stretch of \<open>s\<close> reads \<open>w\<close> when case is ignored (\<open>w\<close> is in
  lower case).\<close>

definition containsCI :: "string \<Rightarrow> string \<Rightarrow> bool" where
  "containsCI s w = (\<exists>u. sublist u s \<and> toLowerCase u = w)"

fun count :: "effect \<Rightarrow> effect list \<Rightarrow> nat" where
  "count e [] = 0"
| "count e (x # xs) = (if x = e then 1 else 0) + count e xs"

definition propagations :: "effect list \<Rightarrow> effect list" where
  "propagations es = filter (\<lambda>e. case e of CheckIfItemParentIsShared t p m \<Rightarrow> True
                                        | CheckIfItemIsSharedForRename t u m \<Rightarrow> True
                                        | _ \<Rightarrow> False) es"

subsection \<open>A concrete environment\<close>

definition stringify0 :: "json \<Rightarrow> string" where
  "stringify0 j =
     (case j of
        JNull \<Rightarrow> ''null''
      | JStr s \<Rightarrow> [CHR 0x22] @ s @ [CHR 0x22]
      | JObj [] \<Rightarrow> ''{}''
      | JObj [(k, JStr v)] \<Rightarrow> ''{'' @ [CHR 0x22] @ k @ [CHR 0x22] @ '':'' @ [CHR 0x22] @ v @ [CHR 0x22] @ ''}''
      | _ \<Rightarrow> ''[object Object]'')"

definition bodies0 :: "(string \<times> json) list" where
  "bodies0 =
     [(''ok'', JObj [(''status'', JBool True), (''data'', JObj [(''x'', JNum 1)])]),
      (''storage'', JObj [(''status'', JBool False), (''message'', JStr ''storage limit'')]),
      (''denied'', JObj [(''status'', JBool False), (''message'', JStr ''Access denied'')]),
      (''nocode'', JObj [(''status'', JBool False), (''message'', JStr ''Invalid API key'')]),
      (''expired'', JObj [(''status'', JBool False), (''code'', JStr ''api_key_not_found''),
                           (''message'', JStr ''Invalid API key'')])]"

definition world0 :: world where
  "world0 =
     \<lparr>hashFn = (\<lambda>s. ''h('' @ s @ '')''),
      bufferToHash = (\<lambda>b. Inr (''sha512-'' @ decimal (length b))),
      encode = map (\<lambda>c. of_nat (of_char c)),
      JSON_stringify = stringify0,
      JSON_parse = map_of bodies0,
      String_of = (\<lambda>v. case v of Some (JStr s) \<Rightarrow> s | Some JNull \<Rightarrow> ''null'' | _ \<Rightarrow> ''undefined''),
      encodeURIComponent = (\<lambda>s. s),
      urlParamsGet = (\<lambda>q k. None),
      parseURLParamsSearch = (\<lambda>q. JObj [(''query'', JStr q)]),
      nodeBufferToArrayBuffer = Inr,
      striptags = (\<lambda>v. case v of Some (JStr s) \<Rightarrow> Inr s | _ \<Rightarrow> Inr []),
      encryptMetadata = (\<lambda>x k. Inr (''enc('' @ x @ '')'')),
      decryptFileMetadata = (\<lambda>x k. if x = ''bad'' then Inr None
                                  else Inr (Some (JObj [(''name'', JStr x), (''mime'', JStr ''text/plain'')]))),
      decryptFolderName = (\<lambda>x k. if x = ''bad'' then Inl (Failure ''decrypt'') else Inr (str x)),
      db_get = (\<lambda>k. Inr (Some (JArr [JStr ''k1'', JStr ''k2'']))),
      apiRequest_settles = (\<lambda>c. None),
      parentShared_settles = (\<lambda>t p m. Some (Resolved ())),
      sharedForRename_settles = (\<lambda>t u m. Some (Resolved ()))\<rparr>"

definition sys0 :: sys where
  "sys0 = \<lparr>effects = [], permits = 1\<rparr>"

definition constants0 :: constants where
  "constants0 =
     \<lparr>maxRetryAPIRequest = 2, retryAPIRequestTimeout = 1000,
      maxRetryUpload = 2, retryUploadTimeout = 1000,
      maxRetryDownload = 2, retryDownloadTimeout = 1000,
      apiServers = [''api.filen.io'', ''api.filen.net''],
      uploadServers = [''up.filen.io''],
      downloadServers = [''down.filen.io''],
      version = ''2.0.0'', buildNumber = ''200'', platform = ''linux''\<rparr>"

definition store0 :: "string \<Rightarrow> error + jsval" where
  "store0 k = (if k = ''apiKey'' then Inr (str ''secret'') else Inr None)"

definition gone :: json where
  "gone = JObj [(''status'', JBool False), (''code'', JStr ''file_not_found''),
                (''message'', JStr ''File not found'')]"

definition existsAlready :: json where
  "existsAlready = JObj [(''status'', JBool False), (''message'', JStr ''Folder exists''),
                         (''data'', JObj [(''existsUUID'', JStr ''x-1'')])]"

definition denied :: json where
  "denied = JObj [(''status'', JBool False), (''message'', JStr ''Access denied'')]"

definition created :: json where
  "created = JObj [(''status'', JBool True)]"

text \<open>The entry that one file, and one folder at index \<open>i\<close>, contributes to the list when no
  decryption throws: none when the name does not decrypt to a non-empty string, none for
  the folder itself and for a folder whose parent is \<^verbatim>\<open>base\<close>.\<close>

definition fileItem :: "world \<Rightarrow> jsval \<Rightarrow> file_entry \<Rightarrow> item option" where
  "fileItem W masterKeys f =
     (case decryptFileMetadata W (fe_metadata f) masterKeys of
        Inr (Some (JObj kvs)) \<Rightarrow>
          (case map_of kvs ''name'' of
             Some (JStr n) \<Rightarrow>
               (case (striptags W (str n), striptags W (map_of kvs ''mime'')) of
                  (Inr name', Inr mime') \<Rightarrow>
                    if name' \<noteq> [] then
                      Some \<lparr>it_uuid = fe_uuid f, it_parent = fe_parent f,
                            it_metadata = FileMetadata
                              \<lparr>fm_name = name', fm_size = map_of kvs ''size'', fm_mime = mime',
                               fm_key = map_of kvs ''key'',
                               fm_lastModified = map_of kvs ''lastModified''\<rparr>,
                            it_type = ''file''\<rparr>
                    else None
                | _ \<Rightarrow> None)
           | _ \<Rightarrow> None)
      | _ \<Rightarrow> None)"

definition folderName :: "world \<Rightarrow> jsval \<Rightarrow> folder_entry \<Rightarrow> string option" where
  "folderName W masterKeys f =
     (case decryptFolderName W (fo_name f) masterKeys of
        Inr v \<Rightarrow> (case striptags W v of Inr n \<Rightarrow> Some n | Inl e \<Rightarrow> None)
      | Inl e \<Rightarrow> None)"

definition folderItem :: "world \<Rightarrow> jsval \<Rightarrow> string \<Rightarrow> nat \<times> folder_entry \<Rightarrow> item option" where
  "folderItem W masterKeys uuid p =
     (case p of (i, f) \<Rightarrow>
        (case folderName W masterKeys f of
           Some n \<Rightarrow>
             if n \<noteq> [] \<and> fo_uuid f \<noteq> uuid \<and> fo_parent f \<noteq> ''base'' then
               Some \<lparr>it_uuid = fo_uuid f, it_parent = (if i = 0 then ''none'' else fo_parent f),
                     it_metadata = FolderName n, it_type = ''folder''\<rparr>
             else None
         | None \<Rightarrow> None))"

definition folderA :: folder_entry where
  "folderA = \<lparr>fo_uuid = ''d1'', fo_parent = ''self'', fo_name = ''A''\<rparr>"

definition folderBad :: folder_entry where
  "folderBad = \<lparr>fo_uuid = ''d2'', fo_parent = ''d1'', fo_name = ''bad''\<rparr>"

text \<open>What holds of a machine after every step: the requests issued are as many as
  \<^verbatim>\<open>currentTries\<close> counts, no more than the maximum, and each is the request of the call.\<close>

definition api_inv :: "world \<Rightarrow> constants \<Rightarrow> api_args \<Rightarrow> string \<Rightarrow> json machine \<Rightarrow> bool" where
  "api_inv W C a checksum m \<longleftrightarrow>
     length (requestsOf (trace m)) = currentTries m \<and>
     currentTries m \<le> maxRetryAPIRequest C \<and>
     (\<forall>rq \<in> set (requestsOf (trace m)). \<exists>d. rq = api_request W C a checksum d) \<and>
     count Logout (trace m) = 0"

definition up_inv :: "world \<Rightarrow> constants \<Rightarrow> upload_args \<Rightarrow> upload_reads \<Rightarrow> json machine \<Rightarrow> bool" where
  "up_inv W C a r m \<longleftrightarrow>
     length (requestsOf (trace m)) = currentTries m \<and>
     currentTries m \<le> maxRetryUpload C \<and>
     (\<forall>rq \<in> set (requestsOf (trace m)). \<exists>checksum. up_checksum W a r = Inr checksum \<and> rq = up_request W C a r checksum)"

definition dl_inv :: "constants \<Rightarrow> download_args \<Rightarrow> bytes machine \<Rightarrow> bool" where
  "dl_inv C a m \<longleftrightarrow>
     length (requestsOf (trace m)) = currentTries m \<and>
     currentTries m \<le> maxRetryDownload C"

definition args0 :: api_args where
  "args0 = \<lparr>httpMethod = ''POST'', endpoint = ''/v3/auth/info'',
             data = Some (JObj [(''email'', JStr ''a@b'')]), timeout = 500000,
             includeRaw = False, apiKey = str ''secret''\<rparr>"

definition retried :: "event list" where
  "retried = [Run False, Run True, Status 503, Run True, RequestError, Run True]"

definition exhausted :: "'a machine" where
  "exhausted = (start store0)\<lparr>pending := 1, currentTries := 2\<rparr>"

definition upload0 :: upload_args where
  "upload0 = \<lparr>up_queryParams = ''uuid=u-1&index=0'', up_data = [1, 2, 3], up_from = ''sync'',
               up_location = None\<rparr>"

definition reads0 :: upload_reads where
  "reads0 = \<lparr>ur_networkingSettings = None, ur_apiKey = str ''secret'', ur_chunkHash = ''sha512-3''\<rparr>"

definition download0 :: download_args where
  "download0 = \<lparr>dl_region = ''de-1'', dl_bucket = ''b1'', dl_uuid = ''u-1'', dl_index = 0,
                 dl_from = ''sync'', dl_location = None\<rparr>"

text \<open>The pause flags of the spec's table, for a transfer source \<open>frm\<close>: a flag counts as set
  when it is truthy in the store, and also when it cannot be read.\<close>

definition flagSet :: "(string \<Rightarrow> error + jsval) \<Rightarrow> string \<Rightarrow> bool" where
  "flagSet st k = (case st k of Inr v \<Rightarrow> truthy v | Inl e \<Rightarrow> True)"

definition hasUuid :: "jsval \<Rightarrow> bool" where
  "hasUuid location =
     (case location of
        Some (JObj kvs) \<Rightarrow> (case map_of kvs ''uuid'' of Some (JStr u) \<Rightarrow> True | _ \<Rightarrow> False)
      | _ \<Rightarrow> False)"

definition pauseApplies :: "string \<Rightarrow> jsval \<Rightarrow> (string \<Rightarrow> error + jsval) \<Rightarrow> error + bool \<Rightarrow> bool" where
  "pauseApplies frm location st locationPaused =
     (if frm = ''sync'' then
        (if hasUuid location then
           flagSet st ''paused'' \<or> (case locationPaused of Inr b \<Rightarrow> b | Inl e \<Rightarrow> True)
         else flagSet st ''paused'')
      else if sublist ''download'' frm then flagSet st ''downloadPaused''
      else if sublist ''upload'' frm then flagSet st ''uploadPaused''
      else flagSet st ''paused'')"

text \<open>A machine that has issued nothing: still in the gate, or stopped before it.\<close>

definition waiting :: "'a machine \<Rightarrow> bool" where
  "waiting m \<longleftrightarrow>
     currentTries m = 0 \<and> inflight m = 0 \<and> receiving m = 0 \<and> requestsOf (trace m) = [] \<and>
     (gate m \<or> pending m = 0)"

definition userInfo :: api_call where
  "userInfo = \<lparr>ac_method = ''GET'', ac_endpoint = ''/v3/user/info'', ac_data = None,
                ac_apiKey = None, ac_includeRaw = False\<rparr>"

definition nocode :: "event list" where
  "nocode = [Run True, Status 200, End ''nocode'']"

definition expired :: "event list" where
  "expired = [Run True, Status 200, End ''expired'']"

definition pausedAfterFirstAttempt :: "event list" where
  "pausedAfterFirstAttempt =
     [Poll (Inr False), Run True, Status 503, StoreChanged ''paused'' (Inr (Some (JBool True)))]"

definition quotaReached :: "event list" where
  "quotaReached = [Poll (Inr False), Run True, Status 200, End ''storage'']"

definition beforeEnd :: "event list" where
  "beforeEnd = [Poll (Inr False), Run True, Status 200]"

definition pausedStore :: "string \<Rightarrow> error + jsval" where
  "pausedStore = store0(''paused'' := Inr (Some (JBool True)))"

text \<open>A run of \<^verbatim>\<open>doAPIRequest\<close> during which nobody has touched \<^verbatim>\<open>data\<close>.\<close>

definition api_kept :: "world \<Rightarrow> constants \<Rightarrow> api_args \<Rightarrow> string \<Rightarrow> json machine \<Rightarrow> bool" where
  "api_kept W C a checksum m \<longleftrightarrow>
     dataObject m = dataOf a \<and>
     list_all (\<lambda>rq. rq = api_request W C a checksum (dataOf a)) (requestsOf (trace m))"

definition changedBeforeWrite :: "event list" where
  "changedBeforeWrite = [DataChanged (JObj [(''email'', JStr ''a@b.c'')]), Run True]"

definition sharedWithNobody :: propagation where
  "sharedWithNobody =
     \<lparr>sharingReply = Inr (Some (JBool True), Some (JArr [])),
      linkingReply = Inr (Some (JBool False), None),
      contentsForShare = Inr ([], []),
      contentsForLink = Inr ([], [])\<rparr>"

definition worldShared :: world where
  "worldShared =
     world0\<lparr>apiRequest_settles := \<lambda>c. Some (Resolved created),
            parentShared_settles := checkIfItemParentIsShared world0 sharedWithNobody\<rparr>"

section \<open>Properties\<close>

subsection \<open>Trash, move, rename: an item that is gone\<close>

lemmas task_defs = await_def lift_def return_def throw_def perform_def settles_def tryCatch_def
  apiRequest_call_def checkIfItemParentIsShared_call_def checkIfItemIsSharedForRename_call_def
  semaphore_acquire_def semaphore_release_def
  semaphore_acquire_def semaphore_release_def

lemma statusFalseD:
  assumes "statusFalse r"
  obtains s where "field (Some r) ''status'' = Inr s" "\<not> truthy s"
    "field (Some r) ''code'' = Inr (codeOf r)" "field (Some r) ''message'' = Inr (messageOf r)"
    "field (Some r) ''data'' = Inr (dataOfResponse r)"
  using assms
  by (cases r) (auto simp: statusFalse_def codeOf_def messageOf_def dataOfResponse_def split: sum.splits)

lemma field_defined:
  assumes "v \<noteq> None" "v \<noteq> Some JNull"
  obtains x where "field v k = Inr x"
  using assms by (cases v; cases "the v") auto

lemma trashItem_status_false:
  assumes "apiRequest_settles W = (\<lambda>c. Some (Resolved r))" and "statusFalse r"
  shows "fst (trashItem W type uuid s) =
     (if codeOf r = str ''folder_not_found'' \<or> codeOf r = str ''file_not_found''
      then Some (Resolved ()) else Some (Rejected (ErrorOf (messageOf r))))"
proof -
  from assms(2) obtain st where "field (Some r) ''status'' = Inr st" "\<not> truthy st"
    "field (Some r) ''code'' = Inr (codeOf r)" "field (Some r) ''message'' = Inr (messageOf r)"
    by (rule statusFalseD)
  then show ?thesis using assms(1)
    by (auto simp: trashItem_def task_defs arrayIncludes_def split: option.splits json.splits)
qed

lemma moveFile_status_false:
  assumes "apiRequest_settles W = (\<lambda>c. Some (Resolved r))" and "statusFalse r"
    and "file \<noteq> None" "file \<noteq> Some JNull"
  shows "fst (moveFile W file parent s) =
     (if codeOf r = str ''file_not_found''
      then Some (Resolved ()) else Some (Rejected (ErrorOf (messageOf r))))"
proof -
  from assms(2) obtain st where "field (Some r) ''status'' = Inr st" "\<not> truthy st"
    "field (Some r) ''code'' = Inr (codeOf r)" "field (Some r) ''message'' = Inr (messageOf r)"
    by (rule statusFalseD)
  moreover obtain u where "field file ''uuid'' = Inr u" using assms(3,4) by (rule field_defined)
  ultimately show ?thesis using assms(1)
    by (auto simp: moveFile_def task_defs arrayIncludes_def split: option.splits json.splits)
qed

lemma moveFolder_status_false:
  assumes "apiRequest_settles W = (\<lambda>c. Some (Resolved r))" and "statusFalse r"
    and "folder \<noteq> None" "folder \<noteq> Some JNull"
  shows "fst (moveFolder W folder parent s) =
     (if codeOf r = str ''folder_not_found''
      then Some (Resolved ()) else Some (Rejected (ErrorOf (messageOf r))))"
proof -
  from assms(2) obtain st where "field (Some r) ''status'' = Inr st" "\<not> truthy st"
    "field (Some r) ''code'' = Inr (codeOf r)" "field (Some r) ''message'' = Inr (messageOf r)"
    by (rule statusFalseD)
  moreover obtain u where "field folder ''uuid'' = Inr u" using assms(3,4) by (rule field_defined)
  ultimately show ?thesis using assms(1)
    by (auto simp: moveFolder_def task_defs arrayIncludes_def split: option.splits json.splits)
qed

lemma renameFile_status_false:
  assumes "apiRequest_settles W = (\<lambda>c. Some (Resolved r))" and "statusFalse r"
    and "file \<noteq> None" "file \<noteq> Some JNull"
    and "db_get W ''masterKeys'' = Inr mk" "lastMasterKey mk = Inr key"
    and "\<And>x k. encryptMetadata W x k = Inr (enc x k)"
  shows "fst (renameFile W file name s) =
     (if codeOf r = str ''file_not_found''
      then Some (Resolved ()) else Some (Rejected (ErrorOf (messageOf r))))"
proof -
  from assms(2) obtain st where "field (Some r) ''status'' = Inr st" "\<not> truthy st"
    "field (Some r) ''code'' = Inr (codeOf r)" "field (Some r) ''message'' = Inr (messageOf r)"
    by (rule statusFalseD)
  moreover obtain u where "field file ''uuid'' = Inr u" using assms(3,4) by (rule field_defined)
  moreover obtain a where "field file ''size'' = Inr a" using assms(3,4) by (rule field_defined)
  moreover obtain b where "field file ''mime'' = Inr b" using assms(3,4) by (rule field_defined)
  moreover obtain c where "field file ''key'' = Inr c" using assms(3,4) by (rule field_defined)
  moreover obtain d where "field file ''lastModified'' = Inr d" using assms(3,4) by (rule field_defined)
  ultimately show ?thesis using assms(1,5,6,7)
    by (simp add: renameFile_def task_defs arrayIncludes_def Let_def split: option.splits json.splits)
qed

lemma renameFolder_status_false:
  assumes "apiRequest_settles W = (\<lambda>c. Some (Resolved r))" and "statusFalse r"
    and "folder \<noteq> None" "folder \<noteq> Some JNull"
    and "db_get W ''masterKeys'' = Inr mk" "lastMasterKey mk = Inr key"
    and "\<And>x k. encryptMetadata W x k = Inr (enc x k)"
  shows "fst (renameFolder W folder name s) =
     (if codeOf r = str ''folder_not_found''
      then Some (Resolved ()) else Some (Rejected (ErrorOf (messageOf r))))"
proof -
  from assms(2) obtain st where "field (Some r) ''status'' = Inr st" "\<not> truthy st"
    "field (Some r) ''code'' = Inr (codeOf r)" "field (Some r) ''message'' = Inr (messageOf r)"
    by (rule statusFalseD)
  moreover obtain u where "field folder ''uuid'' = Inr u" using assms(3,4) by (rule field_defined)
  ultimately show ?thesis using assms(1,5,6,7)
    by (simp add: renameFolder_def task_defs arrayIncludes_def Let_def split: option.splits json.splits)
qed

text \<open>
  Claim C5. When the server answers \<^verbatim>\<open>trashItem\<close>, \<^verbatim>\<open>moveFile\<close>, \<^verbatim>\<open>moveFolder\<close>, \<^verbatim>\<open>renameFile\<close> or
  \<^verbatim>\<open>renameFolder\<close> with a response whose status is false, the call resolves when the code of
  the response is the not-found code of the operation (\<^verbatim>\<open>folder_not_found\<close> or
  \<^verbatim>\<open>file_not_found\<close> for \<^verbatim>\<open>trashItem\<close>, \<^verbatim>\<open>file_not_found\<close> for the file operations,
  \<^verbatim>\<open>folder_not_found\<close> for the folder operations), and is rejected with an error made of
  the server's message for every other response. The item is an object, and the
  preparation of a rename (master keys, encryption) succeeds.
\<close>

theorem not_found_is_swallowed:
  assumes "apiRequest_settles W = (\<lambda>c. Some (Resolved r))" and "statusFalse r"
    and "it \<noteq> None" and "it \<noteq> Some JNull"
    and "db_get W ''masterKeys'' = Inr mk" and "lastMasterKey mk = Inr key"
    and "\<And>x k. encryptMetadata W x k = Inr (enc x k)"
  shows "fst (trashItem W type uuid s) =
           (if codeOf r = str ''folder_not_found'' \<or> codeOf r = str ''file_not_found''
            then Some (Resolved ()) else Some (Rejected (ErrorOf (messageOf r)))) \<and>
         fst (moveFile W it parent s) =
           (if codeOf r = str ''file_not_found''
            then Some (Resolved ()) else Some (Rejected (ErrorOf (messageOf r)))) \<and>
         fst (moveFolder W it parent s) =
           (if codeOf r = str ''folder_not_found''
            then Some (Resolved ()) else Some (Rejected (ErrorOf (messageOf r)))) \<and>
         fst (renameFile W it name s) =
           (if codeOf r = str ''file_not_found''
            then Some (Resolved ()) else Some (Rejected (ErrorOf (messageOf r)))) \<and>
         fst (renameFolder W it name s) =
           (if codeOf r = str ''folder_not_found''
            then Some (Resolved ()) else Some (Rejected (ErrorOf (messageOf r))))"
  using trashItem_status_false [OF assms(1,2)]
    moveFile_status_false [OF assms(1,2,3,4)]
    moveFolder_status_false [OF assms(1,2,3,4)]
    renameFile_status_false [OF assms(1,2,3,4,5,6), of enc] assms(7)
    renameFolder_status_false [OF assms(1,2,3,4,5,6), of enc]
  by simp

theorem not_found_is_swallowed_witness:
  "statusFalse gone \<and>
   fst (trashItem (world0\<lparr>apiRequest_settles := \<lambda>c. Some (Resolved gone)\<rparr>) ''file'' ''u1'' sys0)
     = Some (Resolved ()) \<and>
   fst (moveFile (world0\<lparr>apiRequest_settles := \<lambda>c. Some (Resolved gone)\<rparr>)
          (Some (JObj [(''uuid'', JStr ''u1'')])) ''p1'' sys0) = Some (Resolved ()) \<and>
   fst (renameFolder (world0\<lparr>apiRequest_settles := \<lambda>c. Some (Resolved gone)\<rparr>)
          (Some (JObj [(''uuid'', JStr ''u1'')])) ''n'' sys0)
     = Some (Rejected (ErrorOf (str ''File not found'')))"
proof -
  let ?W = "world0\<lparr>apiRequest_settles := \<lambda>c. Some (Resolved gone)\<rparr>"
  let ?it = "Some (JObj [(''uuid'', JStr ''u1'')])"
  have h1: "apiRequest_settles ?W = (\<lambda>c. Some (Resolved gone))" by simp
  have h2: "statusFalse gone" by (simp add: statusFalse_def gone_def)
  have h3: "?it \<noteq> None" and h4: "?it \<noteq> Some JNull" by simp_all
  have h5: "db_get ?W ''masterKeys'' = Inr (Some (JArr [JStr ''k1'', JStr ''k2'']))"
    by (simp add: world0_def)
  have h6: "lastMasterKey (Some (JArr [JStr ''k1'', JStr ''k2''])) = Inr (str ''k2'')" by simp
  have h7: "\<And>x k. encryptMetadata ?W x k = Inr (''enc('' @ x @ '')'')" by (simp add: world0_def)
  have c: "codeOf gone = str ''file_not_found''" "messageOf gone = str ''File not found''"
    by (simp_all add: codeOf_def messageOf_def gone_def)
  from not_found_is_swallowed [OF h1 h2 h3 h4 h5 h6 h7, of "''file''" "''u1''" sys0 "''p1''" "''n''"]
  show ?thesis using h2 c by simp
qed

subsection \<open>\<^verbatim>\<open>createFolder\<close>\<close>

lemma count_append [simp]: "count e (xs @ ys) = count e xs + count e ys"
  by (induction xs) auto

lemma propagations_append [simp]: "propagations (xs @ ys) = propagations xs @ propagations ys"
  by (simp add: propagations_def)

lemma typeof_undefined [simp]: "typeof v = ''undefined'' \<longleftrightarrow> v = None"
  by (cases v; cases "the v") auto

lemma createFolder_exists:
  assumes "permits s > 0"
    and "db_get W ''masterKeys'' = Inr mk" and "lastMasterKey mk = Inr key"
    and "\<And>x. encryptMetadata W x key = Inr (enc x)"
    and "apiRequest_settles W = (\<lambda>c. Some (Resolved r))" and "statusFalse r"
    and "dataOfResponse r = Some d" and "field (Some d) ''existsUUID'' = Inr (Some u)"
  shows "fst (createFolder W uuid name parent s) = Some (Resolved (Some u))"
    and "count SemaphoreRelease (effects (snd (createFolder W uuid name parent s)))
           = count SemaphoreRelease (effects s) + 1"
    and "permits (snd (createFolder W uuid name parent s)) = permits s"
    and "propagations (effects (snd (createFolder W uuid name parent s))) = propagations (effects s)"
proof -
  from assms(6) obtain st where "field (Some r) ''status'' = Inr st" "\<not> truthy st"
    "field (Some r) ''data'' = Inr (dataOfResponse r)"
    by (rule statusFalseD)
  then have *: "createFolder W uuid name parent s =
      (Some (Resolved (Some u)),
       s\<lparr>effects := effects s @ [SemaphoreAcquire, ApiRequest (post ''/v3/dir/create''
                 (literal [(''uuid'', str uuid), (''name'', str (enc (JSON_stringify W (literal [(''name'', str name)])))),
                           (''nameHashed'', str (hashFn W (toLowerCase name))), (''parent'', str parent)])), SemaphoreRelease],
         permits := permits s\<rparr>)"
    using assms(1,2,3,4,5,7,8)
    by (simp add: createFolder_def task_defs Let_def)
  show "fst (createFolder W uuid name parent s) = Some (Resolved (Some u))" by (simp add: *)
  show "count SemaphoreRelease (effects (snd (createFolder W uuid name parent s)))
           = count SemaphoreRelease (effects s) + 1" by (simp add: *)
  show "permits (snd (createFolder W uuid name parent s)) = permits s" by (simp add: *)
  show "propagations (effects (snd (createFolder W uuid name parent s))) = propagations (effects s)"
    by (simp add: * propagations_def)
qed

lemma createFolder_no_exists:
  assumes "permits s > 0"
    and "db_get W ''masterKeys'' = Inr mk" and "lastMasterKey mk = Inr key"
    and "\<And>x. encryptMetadata W x key = Inr (enc x)"
    and "apiRequest_settles W = (\<lambda>c. Some (Resolved r))" and "statusFalse r"
    and "dataOfResponse r = None \<or> (\<exists>d. dataOfResponse r = Some d \<and> field (Some d) ''existsUUID'' = Inr None)"
  shows "fst (createFolder W uuid name parent s) = Some (Rejected (ErrorOf (messageOf r)))"
proof -
  from assms(6) obtain st where "field (Some r) ''status'' = Inr st" "\<not> truthy st"
    "field (Some r) ''data'' = Inr (dataOfResponse r)" "field (Some r) ''message'' = Inr (messageOf r)"
    by (rule statusFalseD)
  then show ?thesis
    using assms(1,2,3,4,5,7)
    by (auto simp add: createFolder_def task_defs Let_def)
qed

text \<open>
  Claim C4. When \<^verbatim>\<open>createFolder\<close> holds the permit, its preparation (master keys, encryption)
  succeeds and the server answers with a response whose status is false: if the response
  carries \<^verbatim>\<open>data.existsUUID\<close>, the call gives the permit back once, resolves with that value
  and calls no propagation; if the response has no \<^verbatim>\<open>data\<close>, or a \<^verbatim>\<open>data\<close> without
  \<^verbatim>\<open>existsUUID\<close>, the call is rejected with an error made of the server's message.
\<close>

theorem createFolder_existing_uuid:
  assumes "permits s > 0"
    and "db_get W ''masterKeys'' = Inr mk" and "lastMasterKey mk = Inr key"
    and "\<And>x. encryptMetadata W x key = Inr (enc x)"
    and "apiRequest_settles W = (\<lambda>c. Some (Resolved r))" and "statusFalse r"
  shows "(\<forall>d u. dataOfResponse r = Some d \<and> field (Some d) ''existsUUID'' = Inr (Some u) \<longrightarrow>
            fst (createFolder W uuid name parent s) = Some (Resolved (Some u)) \<and>
            count SemaphoreRelease (effects (snd (createFolder W uuid name parent s)))
              = count SemaphoreRelease (effects s) + 1 \<and>
            permits (snd (createFolder W uuid name parent s)) = permits s \<and>
            propagations (effects (snd (createFolder W uuid name parent s))) = propagations (effects s)) \<and>
         (dataOfResponse r = None \<or>
            (\<exists>d. dataOfResponse r = Some d \<and> field (Some d) ''existsUUID'' = Inr None) \<longrightarrow>
            fst (createFolder W uuid name parent s) = Some (Rejected (ErrorOf (messageOf r))))"
proof -
  have "fst (createFolder W uuid name parent s) = Some (Resolved (Some u)) \<and>
        count SemaphoreRelease (effects (snd (createFolder W uuid name parent s)))
          = count SemaphoreRelease (effects s) + 1 \<and>
        permits (snd (createFolder W uuid name parent s)) = permits s \<and>
        propagations (effects (snd (createFolder W uuid name parent s))) = propagations (effects s)"
    if "dataOfResponse r = Some d" and "field (Some d) ''existsUUID'' = Inr (Some u)" for d u
    using createFolder_exists [OF assms(1,2,3,4,5,6) that, of uuid name parent] by simp
  moreover have "fst (createFolder W uuid name parent s) = Some (Rejected (ErrorOf (messageOf r)))"
    if "dataOfResponse r = None \<or>
          (\<exists>d. dataOfResponse r = Some d \<and> field (Some d) ''existsUUID'' = Inr None)"
    using that by (rule createFolder_no_exists [OF assms(1,2,3,4,5,6)])
  ultimately show ?thesis by blast
qed

theorem createFolder_existing_uuid_witness:
  "statusFalse existsAlready \<and> statusFalse denied \<and>
   fst (createFolder (world0\<lparr>apiRequest_settles := \<lambda>c. Some (Resolved existsAlready)\<rparr>)
          ''u-1'' ''Docs'' ''p-1'' sys0) = Some (Resolved (str ''x-1'')) \<and>
   permits (snd (createFolder (world0\<lparr>apiRequest_settles := \<lambda>c. Some (Resolved existsAlready)\<rparr>)
          ''u-1'' ''Docs'' ''p-1'' sys0)) = 1 \<and>
   propagations (effects (snd (createFolder (world0\<lparr>apiRequest_settles := \<lambda>c. Some (Resolved existsAlready)\<rparr>)
          ''u-1'' ''Docs'' ''p-1'' sys0))) = [] \<and>
   fst (createFolder (world0\<lparr>apiRequest_settles := \<lambda>c. Some (Resolved denied)\<rparr>)
          ''u-1'' ''Docs'' ''p-1'' sys0) = Some (Rejected (ErrorOf (str ''Access denied'')))"
proof -
  let ?W = "world0\<lparr>apiRequest_settles := \<lambda>c. Some (Resolved existsAlready)\<rparr>"
  let ?V = "world0\<lparr>apiRequest_settles := \<lambda>c. Some (Resolved denied)\<rparr>"
  have p: "permits sys0 > 0" by (simp add: sys0_def)
  have k: "lastMasterKey (Some (JArr [JStr ''k1'', JStr ''k2''])) = Inr (str ''k2'')" by simp
  have w1: "db_get ?W ''masterKeys'' = Inr (Some (JArr [JStr ''k1'', JStr ''k2'']))"
    and w2: "\<And>x. encryptMetadata ?W x (str ''k2'') = Inr (''enc('' @ x @ '')'')"
    and w3: "apiRequest_settles ?W = (\<lambda>c. Some (Resolved existsAlready))"
    by (simp_all add: world0_def)
  have v1: "db_get ?V ''masterKeys'' = Inr (Some (JArr [JStr ''k1'', JStr ''k2'']))"
    and v2: "\<And>x. encryptMetadata ?V x (str ''k2'') = Inr (''enc('' @ x @ '')'')"
    and v3: "apiRequest_settles ?V = (\<lambda>c. Some (Resolved denied))"
    by (simp_all add: world0_def)
  have s1: "statusFalse existsAlready" and s2: "statusFalse denied"
    by (simp_all add: statusFalse_def existsAlready_def denied_def)
  have d1: "dataOfResponse existsAlready = Some (JObj [(''existsUUID'', JStr ''x-1'')])"
    and d2: "field (Some (JObj [(''existsUUID'', JStr ''x-1'')])) ''existsUUID'' = Inr (str ''x-1'')"
    and d3: "dataOfResponse denied = None" and d4: "messageOf denied = str ''Access denied''"
    by (simp_all add: dataOfResponse_def messageOf_def existsAlready_def denied_def)
  from createFolder_existing_uuid [OF p w1 k w2 w3 s1, of "''u-1''" "''Docs''" "''p-1''"]
    createFolder_existing_uuid [OF p v1 k v2 v3 s2, of "''u-1''" "''Docs''" "''p-1''"]
  show ?thesis using s1 s2 d1 d2 d3 d4 by (simp add: sys0_def propagations_def)
qed

text \<open>
  A call of \<^verbatim>\<open>createFolder\<close> that obtains the permit of \<^verbatim>\<open>createFolderSemaphore\<close> and settles
  (resolved with the new uuid, resolved with the existing uuid, or rejected with any error
  of any step) has acquired once and released exactly once, and leaves the number of
  permits as it found it; this holds for every behaviour of the store, the crypto helpers,
  \<^verbatim>\<open>apiRequest\<close> and the propagator. It says nothing of a call that does not settle.
\<close>

lemma settled_createFolder_releases_once:
  assumes "permits s > 0" and "fst (createFolder W uuid name parent s) \<noteq> None"
  shows "count SemaphoreRelease (effects (snd (createFolder W uuid name parent s)))
           = count SemaphoreRelease (effects s) + 1 \<and>
         count SemaphoreAcquire (effects (snd (createFolder W uuid name parent s)))
           = count SemaphoreAcquire (effects s) + 1 \<and>
         permits (snd (createFolder W uuid name parent s)) = permits s"
  using assms
  by (auto simp add: createFolder_def task_defs Let_def
      split: sum.splits option.splits outcome.splits if_splits)

lemma createFolder_exit_paths:
  "permits sys0 > 0 \<and>
   fst (createFolder (world0\<lparr>apiRequest_settles := \<lambda>c. Some (Resolved created)\<rparr>)
          ''u-1'' ''Docs'' ''p-1'' sys0) = Some (Resolved (str ''u-1'')) \<and>
   fst (createFolder (world0\<lparr>apiRequest_settles := \<lambda>c. Some (Resolved existsAlready)\<rparr>)
          ''u-1'' ''Docs'' ''p-1'' sys0) = Some (Resolved (str ''x-1'')) \<and>
   fst (createFolder (world0\<lparr>apiRequest_settles := \<lambda>c. Some (Rejected (Failure ''offline''))\<rparr>)
          ''u-1'' ''Docs'' ''p-1'' sys0) = Some (Rejected (Failure ''offline'')) \<and>
   count SemaphoreRelease (effects (snd (createFolder (world0\<lparr>apiRequest_settles := \<lambda>c. Some (Resolved created)\<rparr>)
          ''u-1'' ''Docs'' ''p-1'' sys0))) = 1 \<and>
   count SemaphoreRelease (effects (snd (createFolder (world0\<lparr>apiRequest_settles := \<lambda>c. Some (Resolved existsAlready)\<rparr>)
          ''u-1'' ''Docs'' ''p-1'' sys0))) = 1 \<and>
   count SemaphoreRelease (effects (snd (createFolder (world0\<lparr>apiRequest_settles := \<lambda>c. Some (Rejected (Failure ''offline''))\<rparr>)
          ''u-1'' ''Docs'' ''p-1'' sys0))) = 1"
proof -
  let ?A = "world0\<lparr>apiRequest_settles := \<lambda>c. Some (Resolved created)\<rparr>"
  let ?B = "world0\<lparr>apiRequest_settles := \<lambda>c. Some (Resolved existsAlready)\<rparr>"
  let ?D = "world0\<lparr>apiRequest_settles := \<lambda>c. Some (Rejected (Failure ''offline''))\<rparr>"
  have p: "permits sys0 > 0" by (simp add: sys0_def)
  have a: "fst (createFolder ?A ''u-1'' ''Docs'' ''p-1'' sys0) = Some (Resolved (str ''u-1''))"
    by (simp add: createFolder_def task_defs Let_def world0_def sys0_def created_def)
  have b: "fst (createFolder ?B ''u-1'' ''Docs'' ''p-1'' sys0) = Some (Resolved (str ''x-1''))"
    by (simp add: createFolder_def task_defs Let_def world0_def sys0_def existsAlready_def)
  have d: "fst (createFolder ?D ''u-1'' ''Docs'' ''p-1'' sys0) = Some (Rejected (Failure ''offline''))"
    by (simp add: createFolder_def task_defs Let_def world0_def sys0_def)
  have a': "fst (createFolder ?A ''u-1'' ''Docs'' ''p-1'' sys0) \<noteq> None" using a by simp
  have b': "fst (createFolder ?B ''u-1'' ''Docs'' ''p-1'' sys0) \<noteq> None" using b by simp
  have d': "fst (createFolder ?D ''u-1'' ''Docs'' ''p-1'' sys0) \<noteq> None" using d by simp
  from settled_createFolder_releases_once [OF p a'] settled_createFolder_releases_once [OF p b']
    settled_createFolder_releases_once [OF p d']
  show ?thesis using p a b d by (simp add: sys0_def)
qed

subsection \<open>The items of a folder\<close>

lemma typeof_object: "typeof v = ''object'' \<longleftrightarrow> v = Some JNull \<or> (\<exists>xs. v = Some (JArr xs)) \<or> (\<exists>kvs. v = Some (JObj kvs))"
  by (cases v; cases "the v") auto

lemma typeof_string: "typeof v = ''string'' \<longleftrightarrow> (\<exists>s. v = Some (JStr s))"
  by (cases v; cases "the v") auto

lemma filesLoop_items:
  "filesLoop W mk files items = Inr items' \<Longrightarrow>
   items' = items @ List.map_filter (fileItem W mk) files"
proof (induction files arbitrary: items)
  case Nil
  then show ?case by (simp add: List.map_filter_simps)
next
  case (Cons f files)
  show ?case
  proof (cases "decryptFileMetadata W (fe_metadata f) mk")
    case (Inl e)
    with Cons.prems show ?thesis by simp
  next
    case (Inr decrypted)
    show ?thesis
    proof (cases "typeof decrypted = ''object''")
      case False
      then have "fileItem W mk f = None"
        using Inr by (auto simp: fileItem_def typeof_object split: option.splits json.splits)
      moreover have "filesLoop W mk files items = Inr items'"
        using Cons.prems Inr False by simp
      ultimately show ?thesis using Cons.IH by (simp add: List.map_filter_simps)
    next
      case True
      then consider "decrypted = Some JNull" | xs where "decrypted = Some (JArr xs)"
        | kvs where "decrypted = Some (JObj kvs)"
        by (auto simp: typeof_object)
      then show ?thesis
      proof cases
        case 1
        with Cons.prems Inr show ?thesis by simp
      next
        case 2
        then have "fileItem W mk f = None" using Inr by (simp add: fileItem_def)
        moreover have "filesLoop W mk files items = Inr items'"
          using Cons.prems Inr 2 by simp
        ultimately show ?thesis using Cons.IH by (simp add: List.map_filter_simps)
      next
        case 3
        show ?thesis
        proof (cases "\<exists>n. map_of kvs ''name'' = Some (JStr n)")
          case False
          then have "typeof (map_of kvs ''name'') \<noteq> ''string''" by (simp add: typeof_string)
          then have "filesLoop W mk files items = Inr items'"
            using Cons.prems Inr 3 by simp
          moreover have "fileItem W mk f = None"
            using Inr 3 False by (auto simp: fileItem_def split: option.splits json.splits)
          ultimately show ?thesis using Cons.IH by (simp add: List.map_filter_simps)
        next
          case True
          then obtain n where n: "map_of kvs ''name'' = Some (JStr n)" by blast
          show ?thesis
          proof (cases "striptags W (str n)")
            case (Inl e)
            with Cons.prems Inr 3 n show ?thesis by simp
          next
            case name': (Inr name')
            show ?thesis
            proof (cases "name' = []")
              case True
              then have "filesLoop W mk files items = Inr items'"
                using Cons.prems Inr 3 n name' by simp
              moreover have "fileItem W mk f = None"
                using Inr 3 n name' True by (auto simp: fileItem_def split: sum.splits)
              ultimately show ?thesis using Cons.IH by (simp add: List.map_filter_simps)
            next
              case False
              show ?thesis
              proof (cases "striptags W (map_of kvs ''mime'')")
                case (Inl e)
                with Cons.prems Inr 3 n name' False show ?thesis by simp
              next
                case mime': (Inr mime')
                let ?it = "\<lparr>it_uuid = fe_uuid f, it_parent = fe_parent f,
                            it_metadata = FileMetadata
                              \<lparr>fm_name = name', fm_size = map_of kvs ''size'', fm_mime = mime',
                               fm_key = map_of kvs ''key'',
                               fm_lastModified = map_of kvs ''lastModified''\<rparr>,
                            it_type = ''file''\<rparr>"
                have "filesLoop W mk files (items @ [?it]) = Inr items'"
                  using Cons.prems Inr 3 n name' False mime' by simp
                then have "items' = (items @ [?it]) @ List.map_filter (fileItem W mk) files"
                  by (rule Cons.IH)
                moreover have "fileItem W mk f = Some ?it"
                  using Inr 3 n name' False mime' by (simp add: fileItem_def)
                ultimately show ?thesis by (simp add: List.map_filter_simps)
              qed
            qed
          qed
        qed
      qed
    qed
  qed
qed

lemma foldersLoop_items:
  "\<forall>f \<in> set folders. folderName W mk f \<noteq> None \<Longrightarrow>
   foldersLoop W mk uuid folders i d items =
     items @ List.map_filter (folderItem W mk uuid) (enumerate i folders)"
proof (induction folders arbitrary: i d items)
  case Nil
  then show ?case by (simp add: List.map_filter_simps)
next
  case (Cons f folders)
  then obtain n where n: "folderName W mk f = Some n" by auto
  then have d': "(case decryptFolderName W (fo_name f) mk of
               Inl e \<Rightarrow> d
             | Inr name \<Rightarrow> (case striptags W name of Inl e \<Rightarrow> d | Inr name' \<Rightarrow> Some name')) = Some n"
    by (auto simp: folderName_def split: sum.splits)
  from Cons have IH: "\<And>i d items. foldersLoop W mk uuid folders i d items =
     items @ List.map_filter (folderItem W mk uuid) (enumerate i folders)" by simp
  have fi: "folderItem W mk uuid (i, f) =
      (if n \<noteq> [] \<and> fo_uuid f \<noteq> uuid \<and> fo_parent f \<noteq> ''base'' then
         Some \<lparr>it_uuid = fo_uuid f, it_parent = (if i = 0 then ''none'' else fo_parent f),
               it_metadata = FolderName n, it_type = ''folder''\<rparr>
       else None)"
    using n by (simp add: folderItem_def)
  show ?case
    by (simp add: d' IH fi List.map_filter_simps Let_def)
qed

text \<open>When no decryption of a folder name throws, both lists are the folder itself with
  its real parent, then the files and then the folders that decrypt, each with its real
  parent except the folder at index 0, whose parent is \<^verbatim>\<open>none\<close>.\<close>

lemma items_when_no_folder_name_throws:
  assumes "\<forall>f \<in> set folders. folderName W mk f \<noteq> None"
    and "itemsToShare W mk parent uuid name files folders = Inr items"
  shows "items =
           \<lparr>it_uuid = uuid, it_parent = parent, it_metadata = FolderName name, it_type = ''folder''\<rparr> #
           List.map_filter (fileItem W mk) files @
           List.map_filter (folderItem W mk uuid) (enumerate 0 folders)"
    and "itemsToLink W mk parent uuid name files folders = Inr items"
proof -
  from assms(2) obtain fs where fs: "filesLoop W mk files
      [\<lparr>it_uuid = uuid, it_parent = parent, it_metadata = FolderName name, it_type = ''folder''\<rparr>] = Inr fs"
    and items: "items = foldersLoop W mk uuid folders 0 None fs"
    by (auto simp: itemsToShare_def split: sum.splits)
  from filesLoop_items [OF fs] foldersLoop_items [OF assms(1)] items
  show "items =
           \<lparr>it_uuid = uuid, it_parent = parent, it_metadata = FolderName name, it_type = ''folder''\<rparr> #
           List.map_filter (fileItem W mk) files @
           List.map_filter (folderItem W mk uuid) (enumerate 0 folders)"
    by simp
  show "itemsToLink W mk parent uuid name files folders = Inr items"
    using assms(2) by (simp add: itemsToLink_def itemsToShare_def)
qed

text \<open>
  Claim C8. For a folder in a shared or linked parent, the list of items starts with the
  folder itself, followed by the descendant files and folders that decrypt, with the
  parent of the folder at index 0 rewritten to \<^verbatim>\<open>none\<close>. The code keeps the decrypted name in
  a \<^verbatim>\<open>var\<close>: here the name of the second folder does not decrypt (the helper throws), and
  the folder is listed all the same, under the name of the first.
\<close>

theorem folder_that_does_not_decrypt_is_listed:
  "folderName world0 None folderBad = None \<and>
   itemsToShare world0 None ''root'' ''self'' ''Self'' [] [folderA, folderBad] =
     Inr [\<lparr>it_uuid = ''self'', it_parent = ''root'', it_metadata = FolderName ''Self'', it_type = ''folder''\<rparr>,
          \<lparr>it_uuid = ''d1'', it_parent = ''none'', it_metadata = FolderName ''A'', it_type = ''folder''\<rparr>,
          \<lparr>it_uuid = ''d2'', it_parent = ''d1'', it_metadata = FolderName ''A'', it_type = ''folder''\<rparr>] \<and>
   itemsToLink world0 None ''root'' ''self'' ''Self'' [] [folderA, folderBad] =
     Inr [\<lparr>it_uuid = ''self'', it_parent = ''root'', it_metadata = FolderName ''Self'', it_type = ''folder''\<rparr>,
          \<lparr>it_uuid = ''d1'', it_parent = ''none'', it_metadata = FolderName ''A'', it_type = ''folder''\<rparr>,
          \<lparr>it_uuid = ''d2'', it_parent = ''d1'', it_metadata = FolderName ''A'', it_type = ''folder''\<rparr>]"
  by (simp add: itemsToShare_def itemsToLink_def folderName_def folderA_def folderBad_def world0_def)

subsection \<open>A propagation that never resolves\<close>

lemma oneDone_funpow: "(oneDone expected ^^ n) (0, False) = (n, 0 < n \<and> expected \<le> n)"
  by (induction n) (auto simp: oneDone_def)

lemma allDone_iff: "allDone expected \<longleftrightarrow> 0 < expected"
  by (simp add: allDone_def oneDone_funpow)

text \<open>A parent that is shared, but with no user, leaves \<^verbatim>\<open>shareCheckDone\<close> unset for ever: the
  loops over the users do not run, so \<^verbatim>\<open>doneSharing\<close> or \<^verbatim>\<open>doneSharingItem\<close> is never called, and
  the promise is never resolved.\<close>

lemma shared_with_nobody_never_resolves:
  assumes "db_get W ''apiKey'' = Inr k" and "db_get W ''masterKeys'' = Inr mk"
    and "sharingReply R = Inr (sharing, Some (JArr []))" and "truthy sharing"
    and "type = ''file'' \<or>
         (\<exists>files folders items. contentsForShare R = Inr (files, folders) \<and>
            itemsToShare W mk parent (stringOf metaData ''uuid'') (stringOf metaData ''name'')
              files folders = Inr items)"
  shows "checkIfItemParentIsShared W R type parent metaData = None"
  using assms by (auto simp: checkIfItemParentIsShared_def shareSide_def allDone_iff)

text \<open>A call of \<^verbatim>\<open>createFolder\<close> that has the permit and never settles keeps it.\<close>

lemma pending_createFolder_keeps_the_permit:
  assumes "permits s > 0" and "fst (createFolder W uuid name parent s) = None"
  shows "permits (snd (createFolder W uuid name parent s)) = permits s - 1 \<and>
         count SemaphoreRelease (effects (snd (createFolder W uuid name parent s)))
           = count SemaphoreRelease (effects s)"
  using assms
  by (auto simp add: createFolder_def task_defs Let_def
      split: sum.splits option.splits outcome.splits if_splits)

text \<open>
  Claim C10. Every call of \<^verbatim>\<open>createFolder\<close> that acquires the permit is meant to give it back,
  so that later calls are never blocked for good. Here the server creates the folder and
  reports the parent as shared with an empty list of users: \<^verbatim>\<open>checkIfItemParentIsShared\<close>
  never resolves, the call neither returns nor throws, the permit is not released, and
  the next call of \<^verbatim>\<open>createFolder\<close> waits at \<^verbatim>\<open>acquire\<close> without an end.
\<close>

theorem permit_is_kept_when_propagation_never_resolves:
  "checkIfItemParentIsShared world0 sharedWithNobody ''folder'' ''p-1''
     (literal [(''uuid'', str ''u-1''), (''name'', str ''Docs'')]) = None \<and>
   fst (createFolder worldShared ''u-1'' ''Docs'' ''p-1'' sys0) = None \<and>
   permits sys0 = 1 \<and>
   permits (snd (createFolder worldShared ''u-1'' ''Docs'' ''p-1'' sys0)) = 0 \<and>
   count SemaphoreAcquire (effects (snd (createFolder worldShared ''u-1'' ''Docs'' ''p-1'' sys0))) = 1 \<and>
   count SemaphoreRelease (effects (snd (createFolder worldShared ''u-1'' ''Docs'' ''p-1'' sys0))) = 0 \<and>
   createFolder worldShared ''u-2'' ''Pics'' ''p-1''
       (snd (createFolder worldShared ''u-1'' ''Docs'' ''p-1'' sys0))
     = (None, snd (createFolder worldShared ''u-1'' ''Docs'' ''p-1'' sys0))"
proof -
  have never: "checkIfItemParentIsShared world0 sharedWithNobody ''folder'' ''p-1''
     (literal [(''uuid'', str ''u-1''), (''name'', str ''Docs'')]) = None"
    by (simp add: checkIfItemParentIsShared_def shareSide_def linkSide_def sharedWithNobody_def
        world0_def itemsToShare_def stringOf_def allDone_def)
  have first: "createFolder worldShared ''u-1'' ''Docs'' ''p-1'' sys0 =
      (None, \<lparr>effects = [SemaphoreAcquire,
                 ApiRequest (post ''/v3/dir/create''
                   (literal [(''uuid'', str ''u-1''),
                             (''name'', str (''enc('' @ JSON_stringify world0 (literal [(''name'', str ''Docs'')]) @ '')'')),
                             (''nameHashed'', str (hashFn world0 (toLowerCase ''Docs''))),
                             (''parent'', str ''p-1'')])),
                 CheckIfItemParentIsShared ''folder'' ''p-1''
                   (literal [(''uuid'', str ''u-1''), (''name'', str ''Docs'')])],
               permits = 0\<rparr>)"
    using never
    by (simp add: createFolder_def task_defs Let_def worldShared_def world0_def sys0_def created_def)
  show ?thesis
    unfolding first using never
    by (simp add: createFolder_def task_defs sys0_def)
qed

subsection \<open>The transport\<close>

lemma requestsOf_append [simp]: "requestsOf (xs @ ys) = requestsOf xs @ requestsOf ys"
  by (induction xs rule: requestsOf.induct) auto

lemma fold_invariant:
  assumes "\<And>e m. P m \<Longrightarrow> P (f e m)" and "P m"
  shows "P (fold f es m)"
  using assms(2) by (induction es arbitrary: m) (auto intro: assms(1))

lemmas machine_defs = settle_def emit_def schedule_def storeChanged_def start_def

lemma api_step_inv:
  "api_inv W C a checksum m \<Longrightarrow> api_inv W C a checksum (api_step W C a checksum e m)"
  by (cases e)
     (auto simp: api_inv_def api_doRequest_def machine_defs Let_def
           split: option.splits sum.splits)

lemma api_start_inv: "api_inv W C a checksum ((start st)\<lparr>pending := 1, dataObject := d\<rparr>)"
  by (simp add: api_inv_def start_def)

lemma doAPIRequest_inv:
  assumes "api_checksum W a = Inr checksum"
  shows "api_inv W C a checksum (doAPIRequest W C a st events)"
proof -
  have "api_inv W C a checksum
          (fold (api_step W C a checksum) events ((start st)\<lparr>pending := 1, dataObject := dataOf a\<rparr>))"
    by (rule fold_invariant [where P = "api_inv W C a checksum"]) (rule api_step_inv, assumption, rule api_start_inv)
  then show ?thesis using assms by (simp add: doAPIRequest_def)
qed

lemma doAPIRequest_no_checksum:
  "api_checksum W a = Inl e \<Longrightarrow> trace (doAPIRequest W C a st events) = []"
  by (simp add: doAPIRequest_def machine_defs)

lemma doAPIRequest_bounded:
  "length (requestsOf (trace (doAPIRequest W C a st events))) \<le> maxRetryAPIRequest C"
proof (cases "api_checksum W a")
  case (Inl e)
  then show ?thesis by (simp add: doAPIRequest_no_checksum)
next
  case (Inr checksum)
  from doAPIRequest_inv [OF this] show ?thesis by (simp add: api_inv_def)
qed

lemma up_step_inv:
  "up_inv W C a r m \<Longrightarrow> up_inv W C a r (up_step W C a r e m)"
  by (cases e)
     (auto simp: up_inv_def up_doRequest_def up_end_def machine_defs Let_def
           split: option.splits sum.splits json.splits prod.splits bool.splits)

lemma up_enter_inv: "up_inv W C a r (enterGate frm loc (start st))"
  by (auto simp: up_inv_def enterGate_def machine_defs split: sum.splits)

lemma uploadChunk_inv:
  assumes "up_reads W a st = Inr (r, msr)"
  shows "up_inv W C a r (uploadChunk W C a st events)"
proof -
  have "up_inv W C a r (fold (up_step W C a r) events (enterGate (up_from a) (up_location a) (start st)))"
    by (rule fold_invariant [where P = "up_inv W C a r"]) (rule up_step_inv, assumption, rule up_enter_inv)
  moreover have "up_inv W C a r (settle x (start st))" for x
    by (simp add: up_inv_def machine_defs)
  ultimately show ?thesis using assms by (simp add: uploadChunk_def)
qed

lemma uploadChunk_bounded:
  "length (requestsOf (trace (uploadChunk W C a st events))) \<le> maxRetryUpload C"
proof (cases "up_reads W a st")
  case (Inl e)
  then show ?thesis by (simp add: uploadChunk_def machine_defs)
next
  case (Inr p)
  then obtain r msr where "up_reads W a st = Inr (r, msr)" by (cases p) auto
  from uploadChunk_inv [OF this] show ?thesis by (simp add: up_inv_def)
qed

lemma dl_step_inv:
  "dl_inv C a m \<Longrightarrow> dl_inv C a (dl_step W C a ns e m)"
  by (cases e)
     (auto simp: dl_inv_def dl_doRequest_def machine_defs Let_def
           split: option.splits sum.splits prod.splits bool.splits)

lemma dl_enter_inv: "dl_inv C a (enterGate frm loc (start st))"
  by (auto simp: dl_inv_def enterGate_def machine_defs split: sum.splits)

lemma downloadChunk_bounded:
  "length (requestsOf (trace (downloadChunk W C a st events))) \<le> maxRetryDownload C"
proof (cases "st ''networkingSettings''")
  case (Inl e)
  then show ?thesis by (simp add: downloadChunk_def machine_defs)
next
  case (Inr ns)
  have "dl_inv C a (fold (dl_step W C a ns) events (enterGate (dl_from a) (dl_location a) (start st)))"
    by (rule fold_invariant [where P = "dl_inv C a"]) (rule dl_step_inv, assumption, rule dl_enter_inv)
  then show ?thesis using Inr by (simp add: downloadChunk_def dl_inv_def)
qed

lemma offline_does_not_count:
  "currentTries (api_step W C a cs (Run False) m) = currentTries m \<and>
   requestsOf (trace (api_step W C a cs (Run False) m)) = requestsOf (trace m) \<and>
   currentTries (up_step W C ua r (Run False) mu) = currentTries mu \<and>
   requestsOf (trace (up_step W C ua r (Run False) mu)) = requestsOf (trace mu) \<and>
   currentTries (dl_step W C da ns (Run False) md) = currentTries md \<and>
   requestsOf (trace (dl_step W C da ns (Run False) md)) = requestsOf (trace md)"
  by (simp add: api_doRequest_def up_doRequest_def dl_doRequest_def machine_defs split: sum.splits)

lemma api_exhausted:
  assumes "pending m > 0" "currentTries m \<ge> maxRetryAPIRequest C" "promise m = None"
  shows "promise (api_step W C a cs (Run True) m) =
           Some (Rejected (ErrorMsg (''Maximum retries ('' @ decimal (maxRetryAPIRequest C) @
              '') reached for API request: '' @
              JSON_stringify W (literal [(''method'', str (httpMethod a)), (''endpoint'', str (endpoint a)),
                 (''data'', Some (dataObject m)), (''timeout'', Some (JNum (int (timeout a))))]))))"
    and "requestsOf (trace (api_step W C a cs (Run True) m)) = requestsOf (trace m)"
  using assms by (simp_all add: api_doRequest_def api_maxRetries_def machine_defs)

lemma up_exhausted:
  assumes "\<not> gate m" "pending m > 0" "currentTries m \<ge> maxRetryUpload C" "promise m = None"
    "up_checksum W a r = Inr cs"
  shows "promise (up_step W C a r (Run True) m) =
           Some (Rejected (ErrorMsg (''Max retries reached for upload '' @ up_uuid W a r)))"
    and "requestsOf (trace (up_step W C a r (Run True) m)) = requestsOf (trace m)"
  using assms by (simp_all add: up_doRequest_def machine_defs)

lemma dl_exhausted:
  assumes "\<not> gate m" "pending m > 0" "currentTries m \<ge> maxRetryDownload C" "promise m = None"
  shows "promise (dl_step W C a ns (Run True) m) =
           Some (Rejected (ErrorMsg (''Max retries reached for /'' @ dl_region a @ ''/'' @ dl_bucket a @
              ''/'' @ dl_uuid a @ ''/'' @ decimal (dl_index a))))"
    and "requestsOf (trace (dl_step W C a ns (Run True) m)) = requestsOf (trace m)"
  using assms by (simp_all add: dl_doRequest_def dl_path_def machine_defs)

lemma up_reads_chunkHash:
  "up_reads W a st = Inr (r, msr) \<Longrightarrow> bufferToHash W (up_data a) = Inr (ur_chunkHash r)"
  by (auto simp: up_reads_def split: sum.splits)

lemma getAPIServer_member: "getAPIServer C g = Some h \<Longrightarrow> h \<in> set (apiServers C)"
  by (auto simp: getAPIServer_def Let_def split: if_splits)

lemma fold_invariant_on:
  assumes "\<And>e m. e \<in> set es \<Longrightarrow> P m \<Longrightarrow> P (f e m)" and "P m"
  shows "P (fold f es m)"
  using assms by (induction es arbitrary: m) auto

lemma api_step_kept:
  assumes "\<And>d. e \<noteq> DataChanged d" and "api_kept W C a checksum m"
  shows "api_kept W C a checksum (api_step W C a checksum e m)"
  using assms
  by (cases e)
     (auto simp: api_kept_def api_doRequest_def machine_defs Let_def
           split: option.splits sum.splits)

text \<open>The \<^verbatim>\<open>Checksum\<close> header of every request of \<^verbatim>\<open>doAPIRequest\<close> is the hash of the serialisation
  made when the function was called.\<close>

lemma checksum_is_of_the_data_at_the_call:
  assumes "rq \<in> set (requestsOf (trace (doAPIRequest W C a st events)))"
  shows "\<exists>c. map_of (rq_headers rq) ''Checksum'' = Some c \<and>
             bufferToHash W (encode W (JSON_stringify W (dataOf a))) = Inr c"
proof (cases "api_checksum W a")
  case (Inl e)
  with assms show ?thesis by (simp add: doAPIRequest_no_checksum)
next
  case (Inr checksum)
  from doAPIRequest_inv [OF this, of C st events] assms obtain d where "rq = api_request W C a checksum d"
    by (auto simp: api_inv_def)
  with Inr show ?thesis by (auto simp: api_request_def api_checksum_def)
qed

text \<open>As long as nobody changes \<^verbatim>\<open>data\<close> during the call, the body of a POST request is that same
  serialisation, and the checksum is the hash of the bytes written.\<close>

lemma checksum_is_of_the_body_when_data_is_kept:
  assumes "\<And>d. DataChanged d \<notin> set events"
    and "rq \<in> set (requestsOf (trace (doAPIRequest W C a st events)))"
    and "rq_method rq = ''POST''"
  shows "\<exists>b c. rq_body rq = Text b \<and> b = JSON_stringify W (dataOf a) \<and>
               map_of (rq_headers rq) ''Checksum'' = Some c \<and>
               bufferToHash W (encode W b) = Inr c"
proof (cases "api_checksum W a")
  case (Inl e)
  with assms(2) show ?thesis by (simp add: doAPIRequest_no_checksum)
next
  case (Inr checksum)
  have "api_kept W C a checksum
          (fold (api_step W C a checksum) events ((start st)\<lparr>pending := 1, dataObject := dataOf a\<rparr>))"
  proof (rule fold_invariant_on [where P = "api_kept W C a checksum"])
    fix e m
    assume "e \<in> set events" and "api_kept W C a checksum m"
    with assms(1) show "api_kept W C a checksum (api_step W C a checksum e m)"
      by (intro api_step_kept) auto
  next
    show "api_kept W C a checksum ((start st)\<lparr>pending := 1, dataObject := dataOf a\<rparr>)"
      by (simp add: api_kept_def start_def)
  qed
  with Inr assms(2) have "rq = api_request W C a checksum (dataOf a)"
    by (auto simp: doAPIRequest_def api_kept_def list_all_iff)
  with assms(3) Inr show ?thesis
    by (auto simp: api_request_def api_checksum_def)
qed

text \<open>For an upload the header is the hash of the encoded JSON of the parsed query parameters,
  the parameters being those of the call with \<^verbatim>\<open>&hash=\<close> and the hash of the chunk appended,
  which also form the path of the request.\<close>

lemma upload_checksum_is_of_the_parameters:
  assumes rq: "rq \<in> set (requestsOf (trace (uploadChunk W C ua st events)))"
  shows "\<exists>chunkHash c.
        bufferToHash W (up_data ua) = Inr chunkHash \<and>
        rq_path rq = ''/v3/upload?'' @ up_queryParams ua @ ''&hash='' @ encodeURIComponent W chunkHash \<and>
        map_of (rq_headers rq) ''Checksum'' = Some c \<and>
        bufferToHash W (encode W (JSON_stringify W (parseURLParamsSearch W
          (up_queryParams ua @ ''&hash='' @ encodeURIComponent W chunkHash)))) = Inr c"
proof (cases "up_reads W ua st")
  case (Inl e)
  with rq show ?thesis by (simp add: uploadChunk_def machine_defs)
next
  case (Inr p)
  then obtain r msr where reads: "up_reads W ua st = Inr (r, msr)" by (cases p) auto
  from uploadChunk_inv [OF reads, of C events] rq obtain checksum
    where "up_checksum W ua r = Inr checksum" "rq = up_request W C ua r checksum"
    by (auto simp: up_inv_def)
  with up_reads_chunkHash [OF reads] show ?thesis
    by (auto simp: up_request_def up_checksum_def up_queryParams'_def)
qed

text \<open>
  Claim C1. The \<^verbatim>\<open>Checksum\<close> header of a POST request of \<^verbatim>\<open>doAPIRequest\<close> is meant to be the hash
  of exactly the bytes of \<^verbatim>\<open>JSON.stringify(data)\<close> that are written as the body. The code
  serialises \<^verbatim>\<open>data\<close> twice, once for the hash and once more when it writes. Here the caller
  changes the object after the call and before \<^verbatim>\<open>doRequest\<close> runs: the request carries the
  checksum of the first serialisation and the second serialisation as its body, and the
  hash of the body is another.
\<close>

theorem body_is_serialised_again_after_the_hash:
  "requestsOf (trace (doAPIRequest world0 constants0 args0 store0 changedBeforeWrite))
     = [api_request world0 constants0 args0 ''sha512-15'' (JObj [(''email'', JStr ''a@b.c'')])] \<and>
   rq_method (api_request world0 constants0 args0 ''sha512-15'' (JObj [(''email'', JStr ''a@b.c'')]))
     = ''POST'' \<and>
   rq_body (api_request world0 constants0 args0 ''sha512-15'' (JObj [(''email'', JStr ''a@b.c'')]))
     = Text (JSON_stringify world0 (JObj [(''email'', JStr ''a@b.c'')])) \<and>
   map_of (rq_headers (api_request world0 constants0 args0 ''sha512-15''
             (JObj [(''email'', JStr ''a@b.c'')]))) ''Checksum'' = Some ''sha512-15'' \<and>
   bufferToHash world0 (encode world0 (JSON_stringify world0 (JObj [(''email'', JStr ''a@b'')])))
     = Inr ''sha512-15'' \<and>
   bufferToHash world0 (encode world0 (JSON_stringify world0 (JObj [(''email'', JStr ''a@b.c'')])))
     = Inr ''sha512-17''"
proof -
  have run: "requestsOf (trace (doAPIRequest world0 constants0 args0 store0 changedBeforeWrite))
     = [api_request world0 constants0 args0 ''sha512-15'' (JObj [(''email'', JStr ''a@b.c'')])]"
    by (simp add: doAPIRequest_def api_checksum_def world0_def args0_def constants0_def
        changedBeforeWrite_def api_doRequest_def machine_defs dataOf_def stringify0_def
        decimal.simps digitChar_def)
  have m: "rq_method (api_request world0 constants0 args0 ''sha512-15'' (JObj [(''email'', JStr ''a@b.c'')]))
     = ''POST''"
    by (simp add: api_request_def args0_def toUpperCase_def upperChar_def)
  have b: "rq_body (api_request world0 constants0 args0 ''sha512-15'' (JObj [(''email'', JStr ''a@b.c'')]))
     = Text (JSON_stringify world0 (JObj [(''email'', JStr ''a@b.c'')]))"
    using m by (simp add: api_request_def)
  have h: "map_of (rq_headers (api_request world0 constants0 args0 ''sha512-15''
             (JObj [(''email'', JStr ''a@b.c'')]))) ''Checksum'' = Some ''sha512-15''"
    by (simp add: api_request_def)
  have h1: "bufferToHash world0 (encode world0 (JSON_stringify world0 (JObj [(''email'', JStr ''a@b'')])))
     = Inr ''sha512-15''"
    and h2: "bufferToHash world0 (encode world0 (JSON_stringify world0 (JObj [(''email'', JStr ''a@b.c'')])))
     = Inr ''sha512-17''"
    by (simp_all add: world0_def stringify0_def decimal.simps digitChar_def)
  from run m b h h1 h2 show ?thesis by simp
qed

text \<open>
  Claim C2. \<^verbatim>\<open>doAPIRequest\<close>, \<^verbatim>\<open>uploadChunk\<close> and \<^verbatim>\<open>downloadChunk\<close> issue at most
  \<^verbatim>\<open>maxRetryAPIRequest\<close>, \<^verbatim>\<open>maxRetryUpload\<close> and \<^verbatim>\<open>maxRetryDownload\<close> requests, whatever the
  environment does. A run of \<^verbatim>\<open>doRequest\<close> while the network is offline leaves the counter
  as it is and issues no request. A run of \<^verbatim>\<open>doRequest\<close> while online with the counter at
  the maximum issues no request and rejects the pending promise: for the API with the
  error whose message names the method, the endpoint and the data (as the object is at
  that moment), for an upload with
  the error naming the uuid, for a download with the error naming the path.
\<close>

theorem attempts_are_bounded:
  "length (requestsOf (trace (doAPIRequest W C a st events))) \<le> maxRetryAPIRequest C \<and>
   length (requestsOf (trace (uploadChunk W C ua st events))) \<le> maxRetryUpload C \<and>
   length (requestsOf (trace (downloadChunk W C da st events))) \<le> maxRetryDownload C \<and>
   currentTries (api_step W C a cs (Run False) m) = currentTries m \<and>
   requestsOf (trace (api_step W C a cs (Run False) m)) = requestsOf (trace m) \<and>
   currentTries (up_step W C ua r (Run False) m) = currentTries m \<and>
   requestsOf (trace (up_step W C ua r (Run False) m)) = requestsOf (trace m) \<and>
   currentTries (dl_step W C da ns (Run False) md) = currentTries md \<and>
   requestsOf (trace (dl_step W C da ns (Run False) md)) = requestsOf (trace md) \<and>
   (pending m > 0 \<and> currentTries m \<ge> maxRetryAPIRequest C \<and> promise m = None \<longrightarrow>
      promise (api_step W C a cs (Run True) m) =
        Some (Rejected (ErrorMsg (''Maximum retries ('' @ decimal (maxRetryAPIRequest C) @
           '') reached for API request: '' @
           JSON_stringify W (literal [(''method'', str (httpMethod a)), (''endpoint'', str (endpoint a)),
              (''data'', Some (dataObject m)), (''timeout'', Some (JNum (int (timeout a))))])))) \<and>
      requestsOf (trace (api_step W C a cs (Run True) m)) = requestsOf (trace m)) \<and>
   (\<not> gate m \<and> pending m > 0 \<and> currentTries m \<ge> maxRetryUpload C \<and> promise m = None \<and>
    up_checksum W ua r = Inr cs \<longrightarrow>
      promise (up_step W C ua r (Run True) m) =
        Some (Rejected (ErrorMsg (''Max retries reached for upload '' @ up_uuid W ua r))) \<and>
      requestsOf (trace (up_step W C ua r (Run True) m)) = requestsOf (trace m)) \<and>
   (\<not> gate md \<and> pending md > 0 \<and> currentTries md \<ge> maxRetryDownload C \<and> promise md = None \<longrightarrow>
      promise (dl_step W C da ns (Run True) md) =
        Some (Rejected (ErrorMsg (''Max retries reached for /'' @ dl_region da @ ''/'' @ dl_bucket da @
           ''/'' @ dl_uuid da @ ''/'' @ decimal (dl_index da)))) \<and>
      requestsOf (trace (dl_step W C da ns (Run True) md)) = requestsOf (trace md))"
  using doAPIRequest_bounded [of W C a st events] uploadChunk_bounded [of W C ua st events]
    downloadChunk_bounded [of W C da st events]
    offline_does_not_count [of W C a cs m ua r m da ns md]
    api_exhausted [of m C W a cs] up_exhausted [of m C W ua r cs] dl_exhausted [of md C W da ns]
  by simp

theorem attempts_are_bounded_witness:
  "length (requestsOf (trace (doAPIRequest world0 constants0 args0 store0 retried))) = 2 \<and>
   maxRetryAPIRequest constants0 = 2 \<and>
   promise (doAPIRequest world0 constants0 args0 store0 retried)
     = Some (Rejected (api_maxRetries world0 constants0 args0 (JObj [(''email'', JStr ''a@b'')]))) \<and>
   promise (api_step world0 constants0 args0 ''sha512-42'' (Run True) exhausted)
     = Some (Rejected (api_maxRetries world0 constants0 args0 (JObj []))) \<and>
   up_checksum world0 upload0 reads0 = Inr ''sha512-42'' \<and>
   promise (up_step world0 constants0 upload0 reads0 (Run True) exhausted)
     = Some (Rejected (ErrorMsg (''Max retries reached for upload '' @ up_uuid world0 upload0 reads0))) \<and>
   promise (dl_step world0 constants0 download0 None (Run True) exhausted)
     = Some (Rejected (ErrorMsg (''Max retries reached for '' @ dl_path download0)))"
proof -
  have run: "length (requestsOf (trace (doAPIRequest world0 constants0 args0 store0 retried))) = 2 \<and>
     promise (doAPIRequest world0 constants0 args0 store0 retried)
       = Some (Rejected (api_maxRetries world0 constants0 args0 (JObj [(''email'', JStr ''a@b'')])))"
    by (simp add: doAPIRequest_def api_checksum_def world0_def args0_def retried_def constants0_def
        api_doRequest_def machine_defs dataOf_def stringify0_def)
  have e: "\<not> gate (exhausted :: json machine)" "pending (exhausted :: json machine) > 0"
    "currentTries (exhausted :: json machine) = 2" "promise (exhausted :: json machine) = None"
    "dataObject (exhausted :: json machine) = JObj []"
    "\<not> gate (exhausted :: bytes machine)" "pending (exhausted :: bytes machine) > 0"
    "currentTries (exhausted :: bytes machine) = 2" "promise (exhausted :: bytes machine) = None"
    by (simp_all add: exhausted_def start_def)
  have c: "maxRetryAPIRequest constants0 = 2" "maxRetryUpload constants0 = 2"
    "maxRetryDownload constants0 = 2"
    by (simp_all add: constants0_def)
  have u: "up_checksum world0 upload0 reads0 = Inr ''sha512-42''"
    by (simp add: up_checksum_def world0_def up_queryParams'_def upload0_def reads0_def
        stringify0_def decimal.simps digitChar_def)
  from attempts_are_bounded [of world0 constants0 args0 store0 retried upload0 download0
      "''sha512-42''" exhausted reads0 None exhausted] run e c u
  show ?thesis by (simp add: api_maxRetries_def dl_path_def)
qed

text \<open>
  Claim C9, as the code has it. Every request of \<^verbatim>\<open>doAPIRequest\<close> goes to the fixed host
  \<^verbatim>\<open>gateway.filen.io\<close>, whatever \<^verbatim>\<open>constants.apiServers\<close> holds; \<^verbatim>\<open>getAPIServer\<close>, which draws an
  entry of that list, is not called. The claim as stated fails for a list without the
  gateway.
\<close>

theorem host_is_the_fixed_gateway:
  "\<forall>rq \<in> set (requestsOf (trace (doAPIRequest W C a st events))).
     rq_hostname rq = ''gateway.filen.io''"
proof
  fix rq
  assume rq: "rq \<in> set (requestsOf (trace (doAPIRequest W C a st events)))"
  show "rq_hostname rq = ''gateway.filen.io''"
  proof (cases "api_checksum W a")
    case (Inl e)
    with rq show ?thesis by (simp add: doAPIRequest_no_checksum)
  next
    case (Inr checksum)
    from doAPIRequest_inv [OF this, of C st events] rq obtain d where "rq = api_request W C a checksum d"
      by (auto simp: api_inv_def)
    then show ?thesis by (simp add: api_request_def)
  qed
qed

theorem host_is_the_fixed_gateway_witness:
  "requestsOf (trace (doAPIRequest world0 constants0 args0 store0 [Run True]))
     = [api_request world0 constants0 args0 ''sha512-15'' (JObj [(''email'', JStr ''a@b'')])] \<and>
   rq_hostname (api_request world0 constants0 args0 ''sha512-15'' (JObj [(''email'', JStr ''a@b'')])) = ''gateway.filen.io'' \<and>
   apiServers constants0 = [''api.filen.io'', ''api.filen.net'']"
proof -
  have run: "requestsOf (trace (doAPIRequest world0 constants0 args0 store0 [Run True]))
     = [api_request world0 constants0 args0 ''sha512-15'' (JObj [(''email'', JStr ''a@b'')])]"
    by (simp add: doAPIRequest_def api_checksum_def world0_def args0_def constants0_def
        api_doRequest_def machine_defs dataOf_def stringify0_def decimal.simps digitChar_def)
  from host_is_the_fixed_gateway [of world0 constants0 args0 store0 "[Run True]"] run
  show ?thesis by (simp add: constants0_def)
qed

theorem host_is_not_drawn_from_apiServers:
  "\<not> (\<forall>rq \<in> set (requestsOf (trace (doAPIRequest world0 constants0 args0 store0 [Run True]))).
        \<exists>g. getAPIServer constants0 g = Some (rq_hostname rq))"
proof
  assume all: "\<forall>rq \<in> set (requestsOf (trace (doAPIRequest world0 constants0 args0 store0 [Run True]))).
        \<exists>g. getAPIServer constants0 g = Some (rq_hostname rq)"
  have run: "requestsOf (trace (doAPIRequest world0 constants0 args0 store0 [Run True]))
     = [api_request world0 constants0 args0 ''sha512-15'' (JObj [(''email'', JStr ''a@b'')])]"
    by (simp add: doAPIRequest_def api_checksum_def world0_def args0_def constants0_def
        api_doRequest_def machine_defs dataOf_def stringify0_def decimal.simps digitChar_def)
  from all run obtain g where "getAPIServer constants0 g = Some ''gateway.filen.io''"
    by (auto simp: api_request_def)
  from getAPIServer_member [OF this] show False by (simp add: constants0_def)
qed

subsection \<open>Containment, case ignored\<close>

lemma indexOfFrom_sublist: "0 \<le> i \<Longrightarrow> indexOfFrom i s w \<noteq> -1 \<longleftrightarrow> sublist w s"
proof (induction s arbitrary: i)
  case Nil
  then show ?case by auto
next
  case (Cons c s)
  then show ?case by (auto simp: sublist_Cons_right)
qed

lemma indexOf_sublist: "indexOf s w \<noteq> -1 \<longleftrightarrow> sublist w s"
  by (simp add: indexOf_def indexOfFrom_sublist)

lemma sublist_map_iff: "sublist w (map f s) \<longleftrightarrow> (\<exists>u. sublist u s \<and> map f u = w)"
proof
  assume "sublist w (map f s)"
  then obtain ps ss where "map f s = ps @ w @ ss" by (auto simp: sublist_def)
  then obtain a b c where "s = a @ b @ c" "map f b = w"
    by (auto simp: map_eq_append_conv append_eq_map_conv)
  then show "\<exists>u. sublist u s \<and> map f u = w" by (auto simp: sublist_def)
next
  assume "\<exists>u. sublist u s \<and> map f u = w"
  then obtain u ps ss where "s = ps @ u @ ss" "map f u = w" by (auto simp: sublist_def)
  then have "map f s = map f ps @ w @ map f ss" by simp
  then show "sublist w (map f s)" unfolding sublist_def by blast
qed

lemma indexOf_toLowerCase: "indexOf (toLowerCase s) w \<noteq> -1 \<longleftrightarrow> containsCI s w"
  by (simp add: indexOf_sublist toLowerCase_def sublist_map_iff containsCI_def)

lemma sessionInvalid_iff:
  "sessionInvalid (Some (JStr c)) (Some (JStr msg)) \<longleftrightarrow>
     containsCI msg ''api key not found'' \<or> containsCI msg ''invalid api key'' \<or> c = ''api_key_not_found''"
  using indexOf_toLowerCase [of msg "''api key not found''"] indexOf_toLowerCase [of msg "''invalid api key''"]
  by (simp add: sessionInvalid_def)


lemma doAPIRequest_no_logout: "count Logout (trace (doAPIRequest W C a st events)) = 0"
proof (cases "api_checksum W a")
  case (Inl e)
  then show ?thesis by (simp add: doAPIRequest_def machine_defs)
next
  case (Inr checksum)
  have "count Logout (trace (fold (api_step W C a checksum) events m)) = 0" if "count Logout (trace m) = 0" for m
    using that
  proof (induction events arbitrary: m)
    case Nil
    then show ?case by simp
  next
    case (Cons e events)
    have "count Logout (trace (api_step W C a checksum e m)) = 0"
      using Cons.prems
      by (cases e) (auto simp: api_doRequest_def machine_defs Let_def split: option.splits sum.splits)
    then show ?case using Cons.IH by simp
  qed
  then show ?thesis using Inr by (simp add: doAPIRequest_def start_def)
qed

subsection \<open>The gate is passed before the first request\<close>

lemma locationUuid_hasUuid:
  "(\<exists>u. locationUuid location = Inr (Some u)) \<longleftrightarrow> hasUuid location"
  by (cases location; cases "the location")
     (auto simp: locationUuid_def hasUuid_def split: option.splits json.splits)

lemma getPausedStatus_table:
  "fst (getPausedStatus frm location st locationPaused) \<longleftrightarrow> \<not> pauseApplies frm location st locationPaused"
proof (cases "hasUuid location")
  case True
  then obtain u where "locationUuid location = Inr (Some u)" using locationUuid_hasUuid by blast
  with True show ?thesis
    using indexOf_sublist [of frm "''download''"] indexOf_sublist [of frm "''upload''"]
    by (auto simp: getPausedStatus_def pauseApplies_def pausedKey_def flagSet_def split: sum.splits)
next
  case False
  then have "\<And>u. locationUuid location \<noteq> Inr (Some u)" using locationUuid_hasUuid by blast
  with False show ?thesis
    using indexOf_sublist [of frm "''download''"] indexOf_sublist [of frm "''upload''"]
    by (auto simp: getPausedStatus_def pauseApplies_def pausedKey_def flagSet_def
        split: sum.splits option.splits)
qed

lemma up_step_waiting:
  assumes "waiting m"
  shows "waiting (up_step W C a r e m) \<or>
         (\<exists>lp. e = Poll lp \<and> \<not> pauseApplies (up_from a) (up_location a) (store m) lp)"
proof (cases e)
  case (Poll lp)
  show ?thesis
  proof (cases "fst (getPausedStatus (up_from a) (up_location a) (store m) lp)")
    case True
    then show ?thesis using Poll by (simp add: getPausedStatus_table)
  next
    case False
    then show ?thesis using Poll assms
      by (auto simp: waiting_def machine_defs split: prod.splits bool.splits)
  qed
qed (use assms in \<open>auto simp: waiting_def machine_defs up_doRequest_def split: sum.splits\<close>)

lemma dl_step_waiting:
  assumes "waiting m"
  shows "waiting (dl_step W C a ns e m) \<or>
         (\<exists>lp. e = Poll lp \<and> \<not> pauseApplies (dl_from a) (dl_location a) (store m) lp)"
proof (cases e)
  case (Poll lp)
  show ?thesis
  proof (cases "fst (getPausedStatus (dl_from a) (dl_location a) (store m) lp)")
    case True
    then show ?thesis using Poll by (simp add: getPausedStatus_table)
  next
    case False
    then show ?thesis using Poll assms
      by (auto simp: waiting_def machine_defs split: prod.splits bool.splits)
  qed
qed (use assms in \<open>auto simp: waiting_def machine_defs dl_doRequest_def split: sum.splits\<close>)

lemma gate_passed_before_request:
  assumes step: "\<And>e m. waiting m \<Longrightarrow> waiting (f e m) \<or> (\<exists>lp. e = Poll lp \<and> \<not> P (store m) lp)"
    and "waiting m" and "requestsOf (trace (fold f events m)) \<noteq> []"
  shows "\<exists>pre lp post. events = pre @ Poll lp # post \<and> \<not> P (store (fold f pre m)) lp"
  using assms(2,3)
proof (induction events arbitrary: m)
  case Nil
  then show ?case by (simp add: waiting_def)
next
  case (Cons e events)
  from step [OF Cons.prems(1), of e] show ?case
  proof
    assume "waiting (f e m)"
    from Cons.IH [OF this] Cons.prems(2) obtain pre lp post
      where "events = pre @ Poll lp # post" "\<not> P (store (fold f pre (f e m))) lp" by auto
    then have "e # events = (e # pre) @ Poll lp # post \<and> \<not> P (store (fold f (e # pre) m)) lp"
      by simp
    then show ?thesis by blast
  next
    assume "\<exists>lp. e = Poll lp \<and> \<not> P (store m) lp"
    then obtain lp where "e # events = [] @ Poll lp # events \<and> \<not> P (store (fold f [] m)) lp"
      by auto
    then show ?thesis by blast
  qed
qed

lemma waiting_enterGate: "waiting (enterGate frm loc (start st))"
  by (auto simp: waiting_def enterGate_def machine_defs split: sum.splits)

lemma waiting_settle_start: "waiting (settle x (start st))"
  by (simp add: waiting_def machine_defs)

lemma uploadChunk_gate:
  assumes "requestsOf (trace (uploadChunk W C a st events)) \<noteq> []"
  shows "\<exists>pre lp post. events = pre @ Poll lp # post \<and>
           \<not> pauseApplies (up_from a) (up_location a) (store (uploadChunk W C a st pre)) lp"
proof (cases "up_reads W a st")
  case (Inl e)
  with assms show ?thesis by (simp add: uploadChunk_def machine_defs)
next
  case (Inr p)
  obtain r msr where p: "p = (r, msr)" by (cases p)
  show ?thesis
  proof (cases "truthy msr")
    case True
    with assms Inr p show ?thesis by (simp add: uploadChunk_def machine_defs)
  next
    case False
    let ?m = "enterGate (up_from a) (up_location a) (start st) :: json machine"
    have run: "\<And>evs. uploadChunk W C a st evs = fold (up_step W C a r) evs ?m"
      using Inr p False by (simp add: uploadChunk_def)
    have "\<exists>pre lp post. events = pre @ Poll lp # post \<and>
           \<not> pauseApplies (up_from a) (up_location a) (store (fold (up_step W C a r) pre ?m)) lp"
      by (rule gate_passed_before_request [where f = "up_step W C a r"
            and P = "pauseApplies (up_from a) (up_location a)"])
         (rule up_step_waiting, assumption, rule waiting_enterGate, use assms run in simp)
    then show ?thesis by (simp add: run)
  qed
qed

lemma downloadChunk_gate:
  assumes "requestsOf (trace (downloadChunk W C a st events)) \<noteq> []"
  shows "\<exists>pre lp post. events = pre @ Poll lp # post \<and>
           \<not> pauseApplies (dl_from a) (dl_location a) (store (downloadChunk W C a st pre)) lp"
proof (cases "st ''networkingSettings''")
  case (Inl e)
  with assms show ?thesis by (simp add: downloadChunk_def machine_defs)
next
  case (Inr ns)
  let ?m = "enterGate (dl_from a) (dl_location a) (start st) :: bytes machine"
  have run: "\<And>evs. downloadChunk W C a st evs = fold (dl_step W C a ns) evs ?m"
    using Inr by (simp add: downloadChunk_def)
  have "\<exists>pre lp post. events = pre @ Poll lp # post \<and>
         \<not> pauseApplies (dl_from a) (dl_location a) (store (fold (dl_step W C a ns) pre ?m)) lp"
    by (rule gate_passed_before_request [where f = "dl_step W C a ns"
          and P = "pauseApplies (dl_from a) (dl_location a)"])
       (rule dl_step_waiting, assumption, rule waiting_enterGate, use assms run in simp)
  then show ?thesis by (simp add: run)
qed

lemma poll_while_paused:
  assumes "gate m" "pending m > 0" "pauseApplies frm loc (store m) lp"
  shows "getPausedStatus frm loc (store m) lp = (False, False) \<or>
         getPausedStatus frm loc (store m) lp = (False, True)"
  using assms(3) getPausedStatus_table [of frm loc "store m" lp]
  by (cases "getPausedStatus frm loc (store m) lp") auto

lemma up_poll_paused:
  assumes "gate m" "pending m > 0" "pauseApplies (up_from a) (up_location a) (store m) lp"
  shows "gate (up_step W C a r (Poll lp) m) \<and> pending (up_step W C a r (Poll lp) m) = pending m \<and>
         requestsOf (trace (up_step W C a r (Poll lp) m)) = requestsOf (trace m) \<and>
         last (trace (up_step W C a r (Poll lp) m)) = SetTimeout 1000"
  using poll_while_paused [OF assms] assms(1,2) by (auto simp: machine_defs)

lemma dl_poll_paused:
  assumes "gate m" "pending m > 0" "pauseApplies (dl_from a) (dl_location a) (store m) lp"
  shows "gate (dl_step W C a ns (Poll lp) m) \<and> pending (dl_step W C a ns (Poll lp) m) = pending m \<and>
         requestsOf (trace (dl_step W C a ns (Poll lp) m)) = requestsOf (trace m) \<and>
         last (trace (dl_step W C a ns (Poll lp) m)) = SetTimeout 1000"
  using poll_while_paused [OF assms] assms(1,2) by (auto simp: machine_defs)

text \<open>After the gate, a run of \<^verbatim>\<open>doRequest\<close> while online and below the maximum issues the
  request; it reads no pause flag.\<close>

lemma up_retry:
  assumes "\<not> gate m" "pending m > 0" "currentTries m < maxRetryUpload C" "up_checksum W a r = Inr cs"
  shows "requestsOf (trace (up_step W C a r (Run True) m)) = requestsOf (trace m) @ [up_request W C a r cs]"
  using assms by (simp add: up_doRequest_def machine_defs)

lemma dl_retry:
  assumes "\<not> gate m" "pending m > 0" "currentTries m < maxRetryDownload C"
  shows "requestsOf (trace (dl_step W C a ns (Run True) m)) = requestsOf (trace m) @ [dl_request C a]"
  using assms by (simp add: dl_doRequest_def machine_defs)

text \<open>
  Claim C7, as the code has it. \<^verbatim>\<open>uploadChunk\<close> and \<^verbatim>\<open>downloadChunk\<close> enter the pause gate once,
  before the first attempt: if a call has issued any request, then some poll of the gate
  before it found no applicable pause flag set (global \<^verbatim>\<open>paused\<close> or the pause of the location
  for a sync transfer with a location, global \<^verbatim>\<open>paused\<close> for sync without one,
  \<^verbatim>\<open>downloadPaused\<close> or \<^verbatim>\<open>uploadPaused\<close> for a source naming that direction, global \<^verbatim>\<open>paused\<close>
  otherwise; a flag that cannot be read counts as set). A poll that finds a flag set
  issues nothing and schedules the next poll after 1000 ms. Once the gate is passed, every
  run of \<^verbatim>\<open>doRequest\<close> while online and below the maximum issues its request whatever the
  flags are: the retries of the attempt loop do not go through the gate again.
\<close>

theorem pause_gate_before_first_attempt:
  "(requestsOf (trace (uploadChunk W C ua st events)) \<noteq> [] \<longrightarrow>
      (\<exists>pre lp post. events = pre @ Poll lp # post \<and>
         \<not> pauseApplies (up_from ua) (up_location ua) (store (uploadChunk W C ua st pre)) lp)) \<and>
   (requestsOf (trace (downloadChunk W C da st events)) \<noteq> [] \<longrightarrow>
      (\<exists>pre lp post. events = pre @ Poll lp # post \<and>
         \<not> pauseApplies (dl_from da) (dl_location da) (store (downloadChunk W C da st pre)) lp)) \<and>
   (gate m \<and> pending m > 0 \<and> pauseApplies (up_from ua) (up_location ua) (store m) lp \<longrightarrow>
      gate (up_step W C ua r (Poll lp) m) \<and> pending (up_step W C ua r (Poll lp) m) = pending m \<and>
      requestsOf (trace (up_step W C ua r (Poll lp) m)) = requestsOf (trace m) \<and>
      last (trace (up_step W C ua r (Poll lp) m)) = SetTimeout 1000) \<and>
   (gate md \<and> pending md > 0 \<and> pauseApplies (dl_from da) (dl_location da) (store md) lp \<longrightarrow>
      gate (dl_step W C da ns (Poll lp) md) \<and> pending (dl_step W C da ns (Poll lp) md) = pending md \<and>
      requestsOf (trace (dl_step W C da ns (Poll lp) md)) = requestsOf (trace md) \<and>
      last (trace (dl_step W C da ns (Poll lp) md)) = SetTimeout 1000) \<and>
   (\<not> gate m \<and> pending m > 0 \<and> currentTries m < maxRetryUpload C \<and> up_checksum W ua r = Inr cs \<longrightarrow>
      requestsOf (trace (up_step W C ua r (Run True) m))
        = requestsOf (trace m) @ [up_request W C ua r cs]) \<and>
   (\<not> gate md \<and> pending md > 0 \<and> currentTries md < maxRetryDownload C \<longrightarrow>
      requestsOf (trace (dl_step W C da ns (Run True) md))
        = requestsOf (trace md) @ [dl_request C da])"
  using uploadChunk_gate [of W C ua st events] downloadChunk_gate [of W C da st events]
    up_poll_paused [of m ua lp W C r] dl_poll_paused [of md da lp W C ns]
    up_retry [of m C W ua r cs] dl_retry [of md C W da ns]
  by blast

theorem pause_gate_before_first_attempt_witness:
  "requestsOf (trace (uploadChunk world0 constants0 upload0 store0 [Poll (Inr False), Run True])) \<noteq> [] \<and>
   \<not> pauseApplies (up_from upload0) (up_location upload0) store0 (Inr False) \<and>
   pauseApplies (up_from upload0) (up_location upload0) pausedStore (Inr False) \<and>
   uploadChunk world0 constants0 upload0 pausedStore [Poll (Inr False), Poll (Inr False), Run True]
     = (enterGate ''sync'' None (start pausedStore))\<lparr>trace := [SetTimeout 1000, SetTimeout 1000]\<rparr> \<and>
   gate (up_step world0 constants0 upload0 reads0 (Poll (Inr False))
           (enterGate ''sync'' None (start pausedStore)))"
proof -
  let ?g = "enterGate ''sync'' None (start pausedStore) :: json machine"
  have run: "requestsOf (trace (uploadChunk world0 constants0 upload0 store0 [Poll (Inr False), Run True])) \<noteq> []"
    by (simp add: uploadChunk_def up_reads_def store0_def upload0_def world0_def
        enterGate_def locationUuid_def getPausedStatus_def up_checksum_def up_doRequest_def
        constants0_def machine_defs)
  have free: "\<not> pauseApplies (up_from upload0) (up_location upload0) store0 (Inr False)"
    and set: "pauseApplies (up_from upload0) (up_location upload0) pausedStore (Inr False)"
    by (simp_all add: pauseApplies_def flagSet_def hasUuid_def upload0_def store0_def pausedStore_def)
  have held: "uploadChunk world0 constants0 upload0 pausedStore [Poll (Inr False), Poll (Inr False), Run True]
     = ?g\<lparr>trace := [SetTimeout 1000, SetTimeout 1000]\<rparr>"
    by (simp add: uploadChunk_def up_reads_def store0_def pausedStore_def upload0_def world0_def
        enterGate_def locationUuid_def getPausedStatus_def machine_defs)
  have g: "gate ?g" "pending ?g > 0" "store ?g = pausedStore"
    by (simp_all add: enterGate_def locationUuid_def machine_defs)
  from pause_gate_before_first_attempt [of world0 constants0 upload0 store0 "[Poll (Inr False), Run True]"
      download0 ?g "Inr False" reads0 "enterGate ''sync'' None (start pausedStore)" None
      "''sha512-42''"]
    run free set held g
  show ?thesis by simp
qed

theorem retry_is_issued_while_paused:
  "pauseApplies (up_from upload0) (up_location upload0)
     (store (uploadChunk world0 constants0 upload0 store0 pausedAfterFirstAttempt)) (Inr False) \<and>
   length (requestsOf (trace (uploadChunk world0 constants0 upload0 store0 pausedAfterFirstAttempt))) = 1 \<and>
   length (requestsOf (trace (uploadChunk world0 constants0 upload0 store0
             (pausedAfterFirstAttempt @ [Run True])))) = 2"
  by (simp add: uploadChunk_def up_reads_def store0_def upload0_def world0_def
      pausedAfterFirstAttempt_def enterGate_def locationUuid_def getPausedStatus_def
      up_checksum_def up_doRequest_def constants0_def machine_defs
      pauseApplies_def flagSet_def hasUuid_def)

subsection \<open>Session invalidation\<close>

text \<open>Without \<^verbatim>\<open>includeRaw\<close>, what \<^verbatim>\<open>doAPIRequest\<close> resolves with is the parsed body of a response.\<close>

lemma api_step_resolved:
  assumes "promise (api_step W C a cs e m) = Some (Resolved r)" and "\<not> includeRaw a"
  shows "promise m = Some (Resolved r) \<or> (\<exists>s. e = End s \<and> JSON_parse W s = Some r)"
  using assms
  by (cases e)
     (auto simp: api_doRequest_def machine_defs Let_def split: option.splits sum.splits if_splits)

lemma api_fold_resolved:
  assumes "promise (fold (api_step W C a cs) events m) = Some (Resolved r)" and "\<not> includeRaw a"
  shows "promise m = Some (Resolved r) \<or> (\<exists>s. End s \<in> set events \<and> JSON_parse W s = Some r)"
  using assms(1)
proof (induction events arbitrary: m)
  case Nil
  then show ?case by simp
next
  case (Cons e events)
  from Cons.IH [of "api_step W C a cs e m"] Cons.prems
  have "promise (api_step W C a cs e m) = Some (Resolved r) \<or>
        (\<exists>s. End s \<in> set events \<and> JSON_parse W s = Some r)" by simp
  then show ?case using api_step_resolved [OF _ assms(2), of W C cs e m r] by auto
qed

lemma resolved_response_is_a_parsed_body:
  assumes "promise (doAPIRequest W C a st events) = Some (Resolved r)" and "\<not> includeRaw a"
  shows "\<exists>s. End s \<in> set events \<and> JSON_parse W s = Some r"
proof (cases "api_checksum W a")
  case (Inl e)
  with assms(1) show ?thesis by (simp add: doAPIRequest_def machine_defs)
next
  case (Inr cs)
  with assms(1) have "promise (fold (api_step W C a cs) events
      ((start st)\<lparr>pending := 1, dataObject := dataOf a\<rparr>)) = Some (Resolved r)"
    by (simp add: doAPIRequest_def)
  from api_fold_resolved [OF this assms(2)] show ?thesis by (simp add: start_def)
qed

text \<open>
  Claim C3, as the code has it. When the response that \<^verbatim>\<open>doAPIRequest\<close> hands to \<^verbatim>\<open>apiRequest\<close>
  carries both a string \<^verbatim>\<open>code\<close> and a string \<^verbatim>\<open>message\<close>, and the message contains
  \<^verbatim>\<open>api key not found\<close> or \<^verbatim>\<open>invalid api key\<close> when case is ignored, or the code is
  \<^verbatim>\<open>api_key_not_found\<close>, then \<^verbatim>\<open>apiRequest\<close> calls \<^verbatim>\<open>logout\<close> exactly once and is rejected with
  \<^verbatim>\<open>Session invalidated\<close>, whatever the method, the endpoint and the data.
\<close>

theorem session_invalidation:
  assumes "dbAPIKey c st = Inr k"
    and "promise (doAPIRequest W C (apiRequest_args c k) st events) = Some (Resolved response)"
    and "field (Some response) ''code'' = Inr (Some (JStr code))"
    and "field (Some response) ''message'' = Inr (Some (JStr message))"
    and "containsCI message ''api key not found'' \<or> containsCI message ''invalid api key'' \<or>
         code = ''api_key_not_found''"
  shows "promise (apiRequest W C c st events) = Some (Rejected (ErrorMsg ''Session invalidated'')) \<and>
         count Logout (trace (apiRequest W C c st events)) = 1"
proof -
  have obj: "typeof (Some response) = ''object''"
    using assms(3) by (cases response) auto
  have inv: "sessionInvalid (Some (JStr code)) (Some (JStr message))"
    using assms(5) by (simp add: sessionInvalid_iff)
  show ?thesis
    using assms(1,2,3,4) obj inv doAPIRequest_no_logout [of W C "apiRequest_args c k" st events]
    by (simp add: apiRequest_def apiRequest_inspect_def emit_def Let_def)
qed

theorem session_invalidation_witness:
  "dbAPIKey userInfo store0 = Inr (str ''secret'') \<and>
   promise (doAPIRequest world0 constants0 (apiRequest_args userInfo (str ''secret'')) store0 expired)
     = Some (Resolved (JObj [(''status'', JBool False), (''code'', JStr ''api_key_not_found''),
                             (''message'', JStr ''Invalid API key'')])) \<and>
   containsCI ''Invalid API key'' ''invalid api key'' \<and>
   promise (apiRequest world0 constants0 userInfo store0 expired)
     = Some (Rejected (ErrorMsg ''Session invalidated'')) \<and>
   count Logout (trace (apiRequest world0 constants0 userInfo store0 expired)) = 1"
proof -
  have k: "dbAPIKey userInfo store0 = Inr (str ''secret'')"
    by (simp add: dbAPIKey_def userInfo_def store0_def)
  have p: "promise (doAPIRequest world0 constants0 (apiRequest_args userInfo (str ''secret'')) store0 expired)
     = Some (Resolved (JObj [(''status'', JBool False), (''code'', JStr ''api_key_not_found''),
                             (''message'', JStr ''Invalid API key'')]))"
    by (simp add: apiRequest_args_def userInfo_def expired_def
      doAPIRequest_def api_checksum_def dataOf_def world0_def bodies0_def constants0_def
      api_doRequest_def machine_defs Let_def)
  have c: "field (Some (JObj [(''status'', JBool False), (''code'', JStr ''api_key_not_found''),
                             (''message'', JStr ''Invalid API key'')])) ''code'' = Inr (Some (JStr ''api_key_not_found''))"
    and m: "field (Some (JObj [(''status'', JBool False), (''code'', JStr ''api_key_not_found''),
                             (''message'', JStr ''Invalid API key'')])) ''message'' = Inr (Some (JStr ''Invalid API key''))"
    by simp_all
  have l: "containsCI ''Invalid API key'' ''invalid api key''"
    unfolding containsCI_def
    by (rule exI [of _ "''Invalid API key''"]) (simp add: toLowerCase_def lowerChar_def)
  from session_invalidation [OF k p c m] l k p show ?thesis by simp
qed

theorem message_without_code_is_passed_on:
  "JSON_parse world0 ''nocode'' = Some (JObj [(''status'', JBool False), (''message'', JStr ''Invalid API key'')]) \<and>
   containsCI ''Invalid API key'' ''invalid api key'' \<and>
   promise (apiRequest world0 constants0 userInfo store0 nocode)
     = Some (Resolved (JObj [(''status'', JBool False), (''message'', JStr ''Invalid API key'')])) \<and>
   count Logout (trace (apiRequest world0 constants0 userInfo store0 nocode)) = 0"
proof -
  have l: "containsCI ''Invalid API key'' ''invalid api key''"
    unfolding containsCI_def
    by (rule exI [of _ "''Invalid API key''"]) (simp add: toLowerCase_def lowerChar_def)
  then show ?thesis
    by (simp add: apiRequest_def dbAPIKey_def apiRequest_args_def userInfo_def store0_def nocode_def
      doAPIRequest_def api_checksum_def dataOf_def world0_def bodies0_def constants0_def
      api_doRequest_def machine_defs apiRequest_inspect_def sessionInvalid_def Let_def)
qed

text \<open>With \<^verbatim>\<open>includeRaw\<close> the object inspected is the wrapper \<^verbatim>\<open>{data, raw}\<close>, which has no \<^verbatim>\<open>code\<close>:
  the body inside is handed on as it is.\<close>

lemma raw_response_is_not_inspected:
  "promise (apiRequest world0 constants0 (userInfo\<lparr>ac_includeRaw := True\<rparr>) store0 expired)
     = Some (Resolved (JObj [(''data'', JObj [(''status'', JBool False), (''code'', JStr ''api_key_not_found''),
                                              (''message'', JStr ''Invalid API key'')]),
                             (''raw'', JStr ''expired'')])) \<and>
   count Logout (trace (apiRequest world0 constants0 (userInfo\<lparr>ac_includeRaw := True\<rparr>) store0 expired)) = 0"
  by (simp add: apiRequest_def dbAPIKey_def apiRequest_args_def userInfo_def store0_def expired_def
      doAPIRequest_def api_checksum_def dataOf_def world0_def bodies0_def constants0_def
      api_doRequest_def machine_defs apiRequest_inspect_def sessionInvalid_def Let_def)

subsection \<open>Storage exhaustion\<close>

lemma up_end_status_false:
  assumes "receiving m > 0" and "promise m = None" and "JSON_parse W body = Some obj"
    and "statusFalse obj" and "messageOf obj = Some (JStr message)"
  shows "up_step W C a r (End body) m =
     (if containsCI message ''storage'' then
        m\<lparr>receiving := receiving m - 1,
          store := (store m)(''paused'' := Inr (Some (JBool True)),
                             ''maxStorageReached'' := Inr (Some (JBool True))),
          promise := Some (Rejected (Value (str message))),
          trace := trace m @ [DbSet ''paused'' (JBool True), DbSet ''maxStorageReached'' (JBool True),
                              ThrottleDestroy]\<rparr>
      else
        m\<lparr>receiving := receiving m - 1,
          promise := Some (Rejected (Value (str message))),
          trace := trace m @ [ThrottleDestroy]\<rparr>)"
proof -
  from assms(4) obtain s where "field (Some obj) ''status'' = Inr s" "\<not> truthy s"
    "field (Some obj) ''message'' = Inr (messageOf obj)"
    by (rule statusFalseD)
  then show ?thesis
    using assms(1,2,3,5) indexOf_toLowerCase [of message "''storage''"]
    by (auto simp: up_end_def machine_defs)
qed

text \<open>
  Claim C6. When an upload response ends with a parsed body whose status is false and
  whose message is a string, the pending promise is rejected with that message; if the
  message contains \<^verbatim>\<open>storage\<close> when case is ignored, \<^verbatim>\<open>paused\<close> and \<^verbatim>\<open>maxStorageReached\<close> are set to
  \<^verbatim>\<open>true\<close> in the configuration store first; if it does not, the store is left as it is and
  nothing is written.
\<close>

theorem storage_exhaustion:
  assumes "receiving m > 0" and "promise m = None" and "JSON_parse W body = Some obj"
    and "statusFalse obj" and "messageOf obj = Some (JStr message)"
  shows "promise (up_step W C a r (End body) m) = Some (Rejected (Value (str message))) \<and>
         (containsCI message ''storage'' \<longrightarrow>
            store (up_step W C a r (End body) m) ''paused'' = Inr (Some (JBool True)) \<and>
            store (up_step W C a r (End body) m) ''maxStorageReached'' = Inr (Some (JBool True)) \<and>
            trace (up_step W C a r (End body) m) =
              trace m @ [DbSet ''paused'' (JBool True), DbSet ''maxStorageReached'' (JBool True),
                         ThrottleDestroy]) \<and>
         (\<not> containsCI message ''storage'' \<longrightarrow>
            store (up_step W C a r (End body) m) = store m \<and>
            trace (up_step W C a r (End body) m) = trace m @ [ThrottleDestroy])"
  unfolding up_end_status_false [OF assms] by simp

theorem storage_exhaustion_witness:
  "receiving (uploadChunk world0 constants0 upload0 store0 beforeEnd) > 0 \<and>
   promise (uploadChunk world0 constants0 upload0 store0 beforeEnd) = None \<and>
   JSON_parse world0 ''storage''
     = Some (JObj [(''status'', JBool False), (''message'', JStr ''storage limit'')]) \<and>
   containsCI ''storage limit'' ''storage'' \<and>
   promise (up_step world0 constants0 upload0 reads0 (End ''storage'')
              (uploadChunk world0 constants0 upload0 store0 beforeEnd))
     = Some (Rejected (Value (str ''storage limit''))) \<and>
   store (up_step world0 constants0 upload0 reads0 (End ''storage'')
              (uploadChunk world0 constants0 upload0 store0 beforeEnd)) ''paused''
     = Inr (Some (JBool True)) \<and>
   store (up_step world0 constants0 upload0 reads0 (End ''storage'')
              (uploadChunk world0 constants0 upload0 store0 beforeEnd)) ''maxStorageReached''
     = Inr (Some (JBool True))"
proof -
  let ?m = "uploadChunk world0 constants0 upload0 store0 beforeEnd"
  let ?obj = "JObj [(''status'', JBool False), (''message'', JStr ''storage limit'')]"
  have m: "receiving ?m > 0 \<and> promise ?m = None"
    by (simp add: uploadChunk_def up_reads_def store0_def upload0_def world0_def beforeEnd_def
        enterGate_def locationUuid_def getPausedStatus_def up_checksum_def up_doRequest_def
        constants0_def machine_defs)
  have p: "JSON_parse world0 ''storage'' = Some ?obj" by (simp add: world0_def bodies0_def)
  have s: "statusFalse ?obj" and g: "messageOf ?obj = Some (JStr ''storage limit'')"
    by (simp_all add: statusFalse_def messageOf_def)
  have l: "containsCI ''storage limit'' ''storage''"
    unfolding containsCI_def
    by (rule exI [of _ "''storage''"]) (simp add: toLowerCase_def lowerChar_def sublist_Cons_right)
  from m have r: "receiving ?m > 0" and n: "promise ?m = None" by simp_all
  from storage_exhaustion [OF r n p s g, of constants0 upload0 reads0] m p l
  show ?thesis by simp
qed

end
